theory Spec2Isabelle
  imports Main "HOL-Library.Word" "HOL-Library.Sublist"
begin

section \<open>Error reporter (pkg/controller/status_reporter.go)\<close>

text \<open>
  The reporter keeps its errors in a slice used as a stack whose top is the last element.
  Go strings are byte sequences and \<open>len\<close> counts bytes, which is what \<open>string\<close>
  (a list of 8-bit characters) and \<open>length\<close> are here. The rate limiter and the status
  channel of the reporter only notify a listener; they never touch the stack and are left out.
\<close>

definition ErrorReporterStackSize :: nat where
  "ErrorReporterStackSize = 10"

definition TrimPrefixSuffixLen :: nat where
  "TrimPrefixSuffixLen = 120"

record 'e errorReporter =
  errorStack :: "'e list"
  critical :: bool

definition NewErrorReporter :: "'e errorReporter" where
  "NewErrorReporter = \<lparr>errorStack = [], critical = False\<rparr>"

text \<open>
  \<open>copy(s.errorStack, s.errorStack[1:])\<close> moves every element but the first one slot
  down and leaves the last slot as it was; the assignment then overwrites the last slot.
\<close>

definition copy_down :: "'e list \<Rightarrow> 'e list" where
  "copy_down st = tl st @ drop (length (tl st)) st"

definition Push :: "'e \<Rightarrow> bool \<Rightarrow> 'e errorReporter \<Rightarrow> 'e \<times> 'e errorReporter" where
  "Push err crit s =
     (if length (errorStack s) = ErrorReporterStackSize
      then (err, s\<lparr>errorStack := (copy_down (errorStack s))[length (errorStack s) - 1 := err]\<rparr>)
      else (err, s\<lparr>errorStack := errorStack s @ [err]\<rparr>))"

definition PushError :: "'e \<Rightarrow> 'e errorReporter \<Rightarrow> 'e \<times> 'e errorReporter" where
  "PushError err s = Push err False s"

definition PushCriticalError :: "'e \<Rightarrow> 'e errorReporter \<Rightarrow> 'e \<times> 'e errorReporter" where
  "PushCriticalError err s = Push err True (s\<lparr>critical := True\<rparr>)"

definition IsEmpty :: "'e errorReporter \<Rightarrow> bool" where
  "IsEmpty s = (length (errorStack s) = 0)"

definition Pop :: "'e errorReporter \<Rightarrow> 'e errorReporter" where
  "Pop s = (if IsEmpty s then s
            else s\<lparr>errorStack := take (length (errorStack s) - 1) (errorStack s)\<rparr>)"

text \<open>\<open>Top\<close> returns \<open>nil\<close> on an empty stack: \<open>None\<close> here.\<close>

definition Top :: "'e errorReporter \<Rightarrow> 'e option" where
  "Top s = (if IsEmpty s then None else Some (errorStack s ! (length (errorStack s) - 1)))"

definition Size :: "'e errorReporter \<Rightarrow> nat" where
  "Size s = length (errorStack s)"

definition IsCritical :: "'e errorReporter \<Rightarrow> bool" where
  "IsCritical s = critical s"

definition trim :: "string \<Rightarrow> string" where
  "trim s =
     (if length s \<le> 2 * TrimPrefixSuffixLen + 5 then s
      else take (TrimPrefixSuffixLen - 1) s @ ''[...]'' @ drop (length s - TrimPrefixSuffixLen) s)"

text \<open>\<open>Report\<close> renders every error with its \<open>Error()\<close> method, here the parameter \<open>msg\<close>.\<close>

definition Report :: "('e \<Rightarrow> string) \<Rightarrow> 'e errorReporter \<Rightarrow> string list" where
  "Report msg s = map (\<lambda>err. trim (msg err)) (errorStack s)"

text \<open>A client of the reporter issues a sequence of these calls.\<close>

datatype 'e reporter_call =
    CallPush 'e bool
  | CallPushError 'e
  | CallPushCriticalError 'e
  | CallPop

fun reporter_step :: "'e errorReporter \<Rightarrow> 'e reporter_call \<Rightarrow> 'e errorReporter" where
  "reporter_step s (CallPush err crit) = snd (Push err crit s)"
| "reporter_step s (CallPushError err) = snd (PushError err s)"
| "reporter_step s (CallPushCriticalError err) = snd (PushCriticalError err s)"
| "reporter_step s CallPop = Pop s"

definition reporter_run :: "'e reporter_call list \<Rightarrow> 'e errorReporter" where
  "reporter_run calls = foldl reporter_step NewErrorReporter calls"

text \<open>
  The specification's reading of the same calls: a LIFO without a bound, on which a push
  adds on top and a pop removes the top. The bounded stack is compared with it.
\<close>

fun lifo_step :: "'e list \<Rightarrow> 'e reporter_call \<Rightarrow> 'e list" where
  "lifo_step st (CallPush err crit) = st @ [err]"
| "lifo_step st (CallPushError err) = st @ [err]"
| "lifo_step st (CallPushCriticalError err) = st @ [err]"
| "lifo_step st CallPop = butlast st"

definition unbounded_lifo :: "'e reporter_call list \<Rightarrow> 'e list" where
  "unbounded_lifo calls = foldl lifo_step [] calls"

definition most_recent :: "nat \<Rightarrow> 'e list \<Rightarrow> 'e list" where
  "most_recent n st = drop (length st - n) st"

text \<open>The errors pushed by a sequence of calls, in the order of the pushes, popped or not.\<close>

fun pushed :: "'e reporter_call list \<Rightarrow> 'e list" where
  "pushed [] = []"
| "pushed (CallPush err crit # calls) = err # pushed calls"
| "pushed (CallPushError err # calls) = err # pushed calls"
| "pushed (CallPushCriticalError err # calls) = err # pushed calls"
| "pushed (CallPop # calls) = pushed calls"

text \<open>What a push leaves on a stack of at most ten entries, as a list.\<close>

definition bounded_push :: "'e list \<Rightarrow> 'e \<Rightarrow> 'e list" where
  "bounded_push b e = (if length b = 10 then tl b @ [e] else b @ [e])"

text \<open>Ten pushes fill a fresh reporter.\<close>

definition ten_pushes :: "nat reporter_call list" where
  "ten_pushes = map CallPushError [1, 2, 3, 4, 5, 6, 7, 8, 9, 10]"

text \<open>Ten pushes, a pop and an eleventh push: the stack is full again.\<close>

definition pop_then_push :: "nat reporter_call list" where
  "pop_then_push = ten_pushes @ [CallPop, CallPushError 11]"

text \<open>A long message whose 120th byte is the only \<open>X\<close>.\<close>

definition long_message :: string where
  "long_message = replicate 119 CHR ''a'' @ ''X'' @ replicate 126 CHR ''b''"

section \<open>Fake runtime cache (pkg/cache/fake_cache.go)\<close>

text \<open>
  An object is an unstructured document with a kind and a \<open>(namespace, name)\<close> identity.
  The client library's \<open>ObjectKey\<close> is a namespaced name, printed as \<open>namespace/name\<close>.
\<close>

record GroupVersionKind =
  Group :: string
  Version :: string
  Kind :: string

record 'v Object =
  ObjGVK :: GroupVersionKind
  Namespace :: string
  Name :: string
  Content :: "(string \<times> 'v) list"

record ObjectKey =
  KeyNamespace :: string
  KeyName :: string

definition ObjectKeyFromObject :: "'v Object \<Rightarrow> ObjectKey" where
  "ObjectKeyFromObject obj = \<lparr>KeyNamespace = Namespace obj, KeyName = Name obj\<rparr>"

definition key_String :: "ObjectKey \<Rightarrow> string" where
  "key_String key = KeyNamespace key @ ''/'' @ KeyName key"

text \<open>\<open>apierrors.NewNotFound(GroupResource{Group, Resource}, name)\<close>.\<close>

datatype cache_error = NotFound string string string

text \<open>
  Of the fields of \<open>FakeRuntimeCache\<close> only \<open>Store\<close> is read or written by \<open>Get\<close>,
  \<open>List\<close>, \<open>Upsert\<close> and \<open>Delete\<close>; a \<open>nil\<close> store is \<open>None\<close>. The functions
  \<open>DeepCopy\<close>, \<open>DeepCopyInto\<close> and \<open>AppendToListItem\<close> belong to the package
  \<open>object\<close>, which is not part of the sources at hand: the copy is the parameter \<open>DeepCopy\<close>,
  and \<open>DeepCopyInto(in, out)\<close> leaves \<open>DeepCopy in\<close> in \<open>out\<close>. Each method returns
  its error (\<open>None\<close> for \<open>nil\<close>) together with what it changed.
\<close>

record 'v FakeRuntimeCache =
  Store :: "'v Object option"

definition Get ::
  "('v Object \<Rightarrow> 'v Object) \<Rightarrow> 'v FakeRuntimeCache \<Rightarrow> ObjectKey \<Rightarrow> 'v Object
     \<Rightarrow> cache_error option \<times> 'v Object" where
  "Get DeepCopy c key obj =
     (case Store c of
        Some st \<Rightarrow> (None, DeepCopy st)
      | None \<Rightarrow> (Some (NotFound (Group (ObjGVK obj)) (Kind (ObjGVK obj)) (key_String key)), obj))"

definition List_objects ::
  "('v Object \<Rightarrow> 'v Object) \<Rightarrow> 'v FakeRuntimeCache \<Rightarrow> 'v Object list
     \<Rightarrow> cache_error option \<times> 'v Object list" where
  "List_objects DeepCopy c items =
     (case Store c of
        Some st \<Rightarrow> (None, items @ [DeepCopy st])
      | None \<Rightarrow> (None, items))"

definition Upsert ::
  "('v Object \<Rightarrow> 'v Object) \<Rightarrow> 'v Object \<Rightarrow> 'v FakeRuntimeCache
     \<Rightarrow> cache_error option \<times> 'v FakeRuntimeCache" where
  "Upsert DeepCopy obj c = (None, c\<lparr>Store := Some (DeepCopy obj)\<rparr>)"

definition Delete ::
  "'v Object \<Rightarrow> 'v FakeRuntimeCache \<Rightarrow> cache_error option \<times> 'v FakeRuntimeCache" where
  "Delete obj c = (None, c\<lparr>Store := None\<rparr>)"

text \<open>Two objects of different identity; the key of the second names neither field of the first.\<close>

definition pod_a :: "nat Object" where
  "pod_a = \<lparr>ObjGVK = \<lparr>Group = [], Version = ''v1'', Kind = ''Pod''\<rparr>,
            Namespace = ''default'', Name = ''a'', Content = [(''phase'', 1)]\<rparr>"

definition pod_b :: "nat Object" where
  "pod_b = \<lparr>ObjGVK = \<lparr>Group = [], Version = ''v1'', Kind = ''Pod''\<rparr>,
            Namespace = ''other'', Name = ''b'', Content = []\<rparr>"

section \<open>Controller (pkg/controller/controller.go)\<close>

text \<open>
  The types \<open>Source\<close>, \<open>Target\<close>, \<open>Request\<close>, \<open>pipeline.Pipeline\<close>, \<open>cache.Delta\<close>
  and the delta types are declared outside the sources at hand. A source is a type parameter.
\<close>

text \<open>Modelled from the spec: the delta types, \<open>type \<in> {Added, Updated, Replaced, Deleted, Sync}\<close>.\<close>

datatype DeltaType = Added | Updated | Replaced | Deleted | Sync

text \<open>Modelled from the spec: a delta is a pair of a type and an object.\<close>

record 'v Delta =
  Type :: DeltaType
  Object :: "'v Object"

text \<open>
  Modelled from the spec: the target of a controller, \<open>{apiGroup, kind, type}\<close>. In the
  zero value \<open>Target{}\<close> of the Go struct every field is empty.
\<close>

record Target =
  apiGroup :: string
  kind :: string
  targetType :: string

definition emptyTarget :: Target where
  "emptyTarget = \<lparr>apiGroup = [], kind = [], targetType = []\<rparr>"

text \<open>
  Modelled from the spec: a pipeline, \<open>{"@join": expr, "@aggregate": [stage\<dots>]}\<close>; \<open>New\<close>
  reads its \<open>Join\<close> field only, a pointer that is \<open>nil\<close> when there is no join stage.
\<close>

record ('j, 'a) Pipeline =
  Join :: "'j option"
  Aggregate :: "'a option"

record ('s, 'j, 'a) Config =
  Sources :: "'s list"
  Pipeline :: "('j, 'a) Pipeline"
  Target :: Target

text \<open>
  A request, as \<open>processRequest\<close> reads it. (The fields are prefixed: \<open>Namespace\<close> and
  \<open>Name\<close> are fields of an object already.)
\<close>

record Request =
  reqGVK :: GroupVersionKind
  reqNamespace :: string
  reqName :: string
  EventType :: DeltaType

text \<open>
  Errors of the controller: \<open>errors.New msg\<close>, and \<open>fmt.Errorf\<close> wrapping with \<open>%w\<close> the
  error \<open>'x\<close> of a collaborator (cluster client, pipeline, target).
\<close>

datatype 'x ctrl_error = ErrorsNew string | Errorf string 'x

text \<open>
  \<open>New\<close> checks the configuration before it touches the manager. Everything after the
  checks (reconciler, watches, engine, scheduling on the manager) is the parameter \<open>setup\<close>,
  which yields the controller or the error of the step that failed.
\<close>

definition New ::
  "(('s, 'j, 'a) Config \<Rightarrow> 'x ctrl_error + 'c) \<Rightarrow> ('s, 'j, 'a) Config \<Rightarrow> 'x ctrl_error + 'c" where
  "New setup config =
     (if length (Sources config) = 0 then Inl (ErrorsNew ''no source'')
      else if Target config = emptyTarget then Inl (ErrorsNew ''no target'')
      else if length (Sources config) > 1 \<and> Join (Pipeline config) = None
        then Inl (ErrorsNew
          ''controllers defined on multiple base resources must specify a Join in the pipeline'')
      else setup config)"

text \<open>
  The collaborators of \<open>processRequest\<close>: the manager's client reads an object from the
  cluster \<open>'w\<close>, the pipeline evaluates a delta on the engine \<open>'eng\<close> (which it may update),
  the target writes a delta to the cluster.
\<close>

record ('v, 'x, 'eng, 'w) collaborators =
  clientGet :: "'w \<Rightarrow> ObjectKey \<Rightarrow> 'v Object \<Rightarrow> 'x option \<times> 'v Object"
  pipelineEvaluate :: "'eng \<Rightarrow> 'v Delta \<Rightarrow> ('x + 'v Delta list) \<times> 'eng"
  targetWrite :: "'w \<Rightarrow> 'v Delta \<Rightarrow> 'x option \<times> 'w"

text \<open>
  The state a request can change: the engine, the cluster, and (kept for the proofs) the
  calls of \<open>target.Write\<close> made so far, each with the delta written and its result.
\<close>

record ('v, 'x, 'eng, 'w) Controller =
  engine :: 'eng
  cluster :: 'w
  writes :: "('v Delta \<times> 'x option) list"

text \<open>The loop of \<open>processRequest\<close> over the deltas of the pipeline.\<close>

fun applyDeltas ::
  "('v, 'x, 'eng, 'w) collaborators \<Rightarrow> 'v Delta list \<Rightarrow> ('v, 'x, 'eng, 'w) Controller
     \<Rightarrow> 'x ctrl_error option \<times> ('v, 'x, 'eng, 'w) Controller" where
  "applyDeltas env [] c = (None, c)"
| "applyDeltas env (d # ds) c =
     (case targetWrite env (cluster c) d of
        (Some err, w) \<Rightarrow>
          (Some (Errorf ''controller: cannot update target'' err),
           c\<lparr>cluster := w, writes := writes c @ [(d, Some err)]\<rparr>)
      | (None, w) \<Rightarrow> applyDeltas env ds (c\<lparr>cluster := w, writes := writes c @ [(d, None)]\<rparr>))"

definition requestObject :: "Request \<Rightarrow> 'v Object" where
  "requestObject req =
     \<lparr>ObjGVK = reqGVK req, Namespace = reqNamespace req, Name = reqName req, Content = []\<rparr>"

definition fetchObject ::
  "('v, 'x, 'eng, 'w) collaborators \<Rightarrow> ('v, 'x, 'eng, 'w) Controller \<Rightarrow> Request
     \<Rightarrow> 'x option \<times> 'v Object" where
  "fetchObject env c req =
     (if EventType req = Added \<or> EventType req = Updated \<or> EventType req = Replaced
      then clientGet env (cluster c)
             (ObjectKeyFromObject (requestObject req :: 'v Object)) (requestObject req)
      else (None, requestObject req))"

definition processRequest ::
  "('v, 'x, 'eng, 'w) collaborators \<Rightarrow> ('v, 'x, 'eng, 'w) Controller \<Rightarrow> Request
     \<Rightarrow> 'x ctrl_error option \<times> ('v, 'x, 'eng, 'w) Controller" where
  "processRequest env c req =
     (case fetchObject env c req of
        (Some err, obj) \<Rightarrow>
          (Some (Errorf ''controller: object disappeared for Add/Update event'' err), c)
      | (None, obj) \<Rightarrow>
          (case pipelineEvaluate env (engine c) \<lparr>Type = EventType req, Object = obj\<rparr> of
             (Inl err, eng) \<Rightarrow>
               (Some (Errorf ''controller: error evaluating pipeline for object'' err),
                c\<lparr>engine := eng\<rparr>)
           | (Inr deltas, eng) \<Rightarrow> applyDeltas env deltas (c\<lparr>engine := eng\<rparr>)))"

text \<open>
  \<open>Start\<close> loops on a \<open>select\<close> over the watcher channel and the context. A run of the
  loop is given by what the \<open>select\<close> receives, in order: a request, or the cancellation of
  the context. When that sequence is used up the loop is blocked in the \<open>select\<close> and has
  not returned. The log of \<open>Start\<close> is kept as a list of entries.
\<close>

datatype event = Recv Request | CtxDone

datatype 'x log_entry =
    LogStarting
  | LogProcessing Request
  | LogErrorProcessing Request "'x ctrl_error"
  | LogTerminating

datatype 'x start_result = Blocked | Returned "'x ctrl_error option"

fun Start_loop ::
  "('c \<Rightarrow> Request \<Rightarrow> 'x ctrl_error option \<times> 'c) \<Rightarrow> 'c \<Rightarrow> 'x log_entry list \<Rightarrow> event list
     \<Rightarrow> 'x start_result \<times> 'c \<times> 'x log_entry list" where
  "Start_loop processor c lg [] = (Blocked, c, lg)"
| "Start_loop processor c lg (CtxDone # evs) = (Returned None, c, lg @ [LogTerminating])"
| "Start_loop processor c lg (Recv req # evs) =
     (case processor c req of
        (Some err, c') \<Rightarrow>
          Start_loop processor c' (lg @ [LogProcessing req, LogErrorProcessing req err]) evs
      | (None, c') \<Rightarrow> Start_loop processor c' (lg @ [LogProcessing req]) evs)"

definition Start ::
  "('c \<Rightarrow> Request \<Rightarrow> 'x ctrl_error option \<times> 'c) \<Rightarrow> 'c \<Rightarrow> event list
     \<Rightarrow> 'x start_result \<times> 'c \<times> 'x log_entry list" where
  "Start processor c evs = Start_loop processor c [LogStarting] evs"

text \<open>The requests a log reports as taken up, and the requests received before a cancellation.\<close>

fun taken_up :: "'x log_entry list \<Rightarrow> Request list" where
  "taken_up [] = []"
| "taken_up (LogProcessing req # lg) = req # taken_up lg"
| "taken_up (e # lg) = taken_up lg"

fun received :: "event list \<Rightarrow> Request list" where
  "received [] = []"
| "received (CtxDone # evs) = []"
| "received (Recv req # evs) = req # received evs"

text \<open>
  Sample collaborators: the client finds every object, the pipeline fails on the object
  named \<open>bad\<close> and otherwise yields a \<open>Deleted\<close> and an \<open>Added\<close> delta for the object,
  and the target refuses every \<open>Deleted\<close> delta.
\<close>

definition sample_env :: "(nat, string, unit, unit) collaborators" where
  "sample_env =
     \<lparr>clientGet = (\<lambda>w key obj. (None, obj)),
      pipelineEvaluate = (\<lambda>eng d.
        (if Name (Object d) = ''bad'' then Inl ''no such field''
         else Inr [d\<lparr>Type := Deleted\<rparr>, d\<lparr>Type := Added\<rparr>], eng)),
      targetWrite = (\<lambda>w d. (if Type d = Deleted then Some ''conflict'' else None, w))\<rparr>"

definition sample_controller :: "(nat, string, unit, unit) Controller" where
  "sample_controller = \<lparr>engine = (), cluster = (), writes = []\<rparr>"

definition sample_request :: "string \<Rightarrow> Request" where
  "sample_request n =
     \<lparr>reqGVK = \<lparr>Group = [], Version = ''v1'', Kind = ''Pod''\<rparr>,
      reqNamespace = ''default'', reqName = n, EventType = Updated\<rparr>"

definition sample_object :: "string \<Rightarrow> nat Object" where
  "sample_object n = requestObject (sample_request n)"

definition two_sources :: "(string, unit, unit) Config" where
  "two_sources =
     \<lparr>Sources = [''ConfigMap'', ''Deployment''],
      Pipeline = \<lparr>Join = Some (), Aggregate = None\<rparr>,
      Target = \<lparr>apiGroup = ''apps'', kind = ''Deployment'', targetType = ''Patcher''\<rparr>\<rparr>"

text \<open>The same configuration without a join stage, and a stand-in for the set-up.\<close>

definition no_join :: "(string, unit, unit) Config" where
  "no_join = two_sources\<lparr>Pipeline := \<lparr>Join = None, Aggregate = Some ()\<rparr>\<rparr>"

definition sample_setup :: "(string, unit, unit) Config \<Rightarrow> string ctrl_error + nat" where
  "sample_setup config = Inr (length (Sources config))"

text \<open>
  What the calls of \<open>target.Write\<close> made for the deltas \<open>ds\<close> look like when the request
  returns \<open>r\<close>: the deltas written are a prefix of \<open>ds\<close> in order, every write but the last
  succeeded, and either all of \<open>ds\<close> was written without an error and \<open>r\<close> is \<open>nil\<close>, or
  the last write made failed and \<open>r\<close> wraps its error.
\<close>

definition write_trace ::
  "'v Delta list \<Rightarrow> 'x ctrl_error option \<Rightarrow> ('v Delta \<times> 'x option) list \<Rightarrow> bool" where
  "write_trace ds r tr =
     (map fst tr = take (length tr) ds
      \<and> list_all (\<lambda>x. snd x = None) (butlast tr)
      \<and> (case r of
            None \<Rightarrow> length tr = length ds \<and> list_all (\<lambda>x. snd x = None) tr
          | Some e \<Rightarrow> tr \<noteq> [] \<and> length tr \<le> length ds
              \<and> (case snd (last tr) of None \<Rightarrow> False
                  | Some err \<Rightarrow> e = Errorf ''controller: cannot update target'' err)))"

text \<open>A run: two requests, the cancellation, and a request that comes too late.\<close>

definition sample_events :: "event list" where
  "sample_events = [Recv (sample_request ''bad''), Recv (sample_request ''web''), CtxDone,
                    Recv (sample_request ''late'')]"

section \<open>Expressions (pkg/pipeline/expression.go)\<close>

subsection \<open>Values, documents and expressions\<close>

text \<open>
  A value is what an \<open>any\<close> holds when an expression is evaluated: \<open>nil\<close>, a \<open>bool\<close>, an
  \<open>int64\<close>, a \<open>float64\<close>, a \<open>string\<close>, a \<open>[]any\<close> or an \<open>Unstructured\<close>
  (\<open>map[string]any\<close>). Integers are 64-bit words, read as signed. A \<open>float64\<close> is kept
  as its 64 bits; floating-point arithmetic is not interpreted, every operation on a
  \<open>float64\<close> is a parameter (see \<open>externals\<close> below), and only \<open>0.0\<close>, all bits zero,
  is written down. A Go map is a list of pairs with distinct keys; the
  order of the list stands for the order in which Go happens to iterate, which the language
  leaves open. Slices and maps that are \<open>nil\<close> are not told apart from empty ones.
\<close>

type_synonym int64 = "64 word"

datatype float64 = Float64bits "64 word"

definition float_zero :: float64 where
  "float_zero = Float64bits 0"

datatype val =
    VNil
  | VBool bool
  | VInt int64
  | VFloat float64
  | VString string
  | VList "val list"
  | VMap "(string \<times> val) list"

text \<open>
  A JSON document, after the syntax is parsed. A number is either an integer literal (no
  fraction, no exponent), given by its value, or another number literal, given by its text.
\<close>

datatype jnumber = JInt int | JLit string

datatype json =
    JNull
  | JBool bool
  | JNumber jnumber
  | JString string
  | JArray "json list"
  | JObject "(string \<times> json) list"

text \<open>
  \<open>Expression\<close> is the struct \<open>{Op string; Arg *Expression; Literal any}\<close>. Besides a plain
  value, \<open>Literal\<close> can hold a \<open>[]Expression\<close> or a \<open>map[string]Expression\<close>.
\<close>

datatype literal =
    LVal val
  | LExprs "Expression list"
  | LExprMap "(string \<times> Expression) list"
and Expression =
    Expression (Op: string) (Arg: "Expression option") (Literal: literal)

record evalCtx =
  object :: val
  subject :: val

text \<open>
  Errors. \<open>Err\<close> is \<open>errors.New\<close>, \<open>Wrap\<close> is \<open>fmt.Errorf\<close> with \<open>%w\<close>, the next three
  are the constructors \<open>NewExpressionError\<close>, \<open>NewInvalidArgumentsError\<close> and
  \<open>NewUnmarshalError\<close> of the package. A run-time panic (an index out of range) is not an
  error value in Go: it is kept apart as \<open>Panic\<close>, and the places that replace or swallow an
  error let it through.
\<close>

datatype error =
    Err string
  | Wrap string error
  | ExpressionError Expression error
  | InvalidArgumentsError string
  | UnmarshalError string json
  | Panic string

text \<open>
  What the file uses and the sources at hand do not contain, or what is floating-point
  arithmetic: the JSONPath reader and writer behind \<open>GetJSONPath\<close> and \<open>SetJSONPath\<close>, the
  label matcher \<open>MatchLabels\<close>, the arithmetic and the comparisons of \<open>float64\<close>, and the
  reading and printing of a \<open>float64\<close> by the JSON library (which fail on a literal out of
  range and on a NaN or an infinity).
\<close>

record externals =
  getPath :: "evalCtx \<Rightarrow> string \<Rightarrow> error + val"
  setPath :: "evalCtx \<Rightarrow> string \<Rightarrow> val \<Rightarrow> (string \<times> val) list \<Rightarrow> error + (string \<times> val) list"
  matchLabels :: "(string \<times> val) list \<Rightarrow> (string \<times> val) list \<Rightarrow> error + val"
  floatOfInt :: "int64 \<Rightarrow> float64"
  floatAdd :: "float64 \<Rightarrow> float64 \<Rightarrow> float64"
  floatLess :: "float64 \<Rightarrow> float64 \<Rightarrow> bool"
  floatLessEq :: "float64 \<Rightarrow> float64 \<Rightarrow> bool"
  floatEq :: "float64 \<Rightarrow> float64 \<Rightarrow> bool"
  floatAbs :: "float64 \<Rightarrow> float64"
  floatCeil :: "float64 \<Rightarrow> float64"
  floatFloor :: "float64 \<Rightarrow> float64"
  parseFloat :: "jnumber \<Rightarrow> float64 option"
  formatFloat :: "float64 \<Rightarrow> jnumber option"

subsection \<open>Helpers\<close>

text \<open>The first error of a list of results, or all the values.\<close>

fun collect :: "('e + 'a) list \<Rightarrow> 'e + 'a list" where
  "collect [] = Inr []"
| "collect (Inl err # rs) = Inl err"
| "collect (Inr v # rs) = (case collect rs of Inl err \<Rightarrow> Inl err | Inr vs \<Rightarrow> Inr (v # vs))"

text \<open>Assignment \<open>m[k] = v\<close> to a Go map.\<close>

fun assign :: "'k \<Rightarrow> 'v \<Rightarrow> ('k \<times> 'v) list \<Rightarrow> ('k \<times> 'v) list" where
  "assign k v [] = [(k, v)]"
| "assign k v ((k', v') # m) = (if k = k' then (k, v) # m else (k', v') # assign k v m)"

definition make_map :: "('k \<times> 'v) list \<Rightarrow> ('k \<times> 'v) list" where
  "make_map kvs = foldl (\<lambda>m (k, v). assign k v m) [] kvs"

text \<open>
  Modelled from the spec: the coercions \<open>asBool\<close>, \<open>asInt\<close>, \<open>asFloat\<close>, \<open>asString\<close>,
  \<open>asList\<close>, \<open>asObject\<close>, \<open>asBoolList\<close>, \<open>asStringList\<close>, \<open>asIntOrFloatList\<close> and
  \<open>asBinaryIntOrFloatList\<close>, which are defined outside the sources at hand. The spec: a
  value of the right type is taken as it is, an ill-typed coercion is an error, and an
  operator on numbers takes two \<open>int64\<close> as they are and otherwise widens both operands to
  \<open>float64\<close>.
\<close>

definition asBool :: "val \<Rightarrow> error + bool" where
  "asBool v = (case v of VBool b \<Rightarrow> Inr b | _ \<Rightarrow> Inl (Err ''not a bool''))"

definition asInt :: "val \<Rightarrow> error + int64" where
  "asInt v = (case v of VInt i \<Rightarrow> Inr i | _ \<Rightarrow> Inl (Err ''not an int''))"

definition asFloat :: "externals \<Rightarrow> val \<Rightarrow> error + float64" where
  "asFloat ext v =
     (case v of VFloat f \<Rightarrow> Inr f | VInt i \<Rightarrow> Inr (floatOfInt ext i)
      | _ \<Rightarrow> Inl (Err ''not a float''))"

definition asString :: "val \<Rightarrow> error + string" where
  "asString v = (case v of VString s \<Rightarrow> Inr s | _ \<Rightarrow> Inl (Err ''not a string''))"

definition asList :: "val \<Rightarrow> error + val list" where
  "asList v = (case v of VList xs \<Rightarrow> Inr xs | _ \<Rightarrow> Inl (Err ''not a list''))"

definition asObject :: "val \<Rightarrow> error + (string \<times> val) list" where
  "asObject v = (case v of VMap m \<Rightarrow> Inr m | _ \<Rightarrow> Inl (Err ''not an object''))"

definition asBoolList :: "val \<Rightarrow> error + bool list" where
  "asBoolList v = (case v of VList xs \<Rightarrow> collect (map asBool xs) | _ \<Rightarrow> Inl (Err ''not a list''))"

definition asStringList :: "val \<Rightarrow> error + string list" where
  "asStringList v =
     (case v of VList xs \<Rightarrow> collect (map asString xs) | _ \<Rightarrow> Inl (Err ''not a list''))"

datatype reflect_Kind = Int64 | Float64

definition asIntOrFloatList ::
  "externals \<Rightarrow> val \<Rightarrow> error + int64 list \<times> float64 list \<times> reflect_Kind" where
  "asIntOrFloatList ext v =
     (case v of
        VList xs \<Rightarrow>
          (case collect (map asInt xs) of
             Inr is \<Rightarrow> Inr (is, [], Int64)
           | Inl _ \<Rightarrow>
               (case collect (map (asFloat ext) xs) of
                  Inr fs \<Rightarrow> Inr ([], fs, Float64)
                | Inl err \<Rightarrow> Inl err))
      | _ \<Rightarrow> Inl (Err ''not a list''))"

definition asBinaryIntOrFloatList ::
  "externals \<Rightarrow> val \<Rightarrow> error + int64 list \<times> float64 list \<times> reflect_Kind" where
  "asBinaryIntOrFloatList ext v =
     (case v of
        VList xs \<Rightarrow>
          (if length xs \<noteq> 2 then Inl (Err ''expected 2 arguments'')
           else asIntOrFloatList ext v)
      | _ \<Rightarrow> Inl (Err ''not a list''))"

text \<open>
  In the four scalar terminals the value coerced is an \<open>any\<close> that is either the literal of
  the expression or the value of its argument. A literal that holds expressions is of no
  scalar type.
\<close>

definition coerceLiteral :: "(val \<Rightarrow> error + 'a) \<Rightarrow> literal \<Rightarrow> error + 'a" where
  "coerceLiteral as lit =
     (case lit of LVal v \<Rightarrow> as v | _ \<Rightarrow> Inl (Err ''not a scalar''))"

text \<open>
  Modelled from the spec: \<open>asExpOrList\<close>, defined outside the sources at hand. The
  higher-order operators carry a pair-shaped argument \<open>[lambda, list]\<close> and receive the
  sub-expressions unevaluated: the argument is a literal list of expressions, whose elements
  are returned, or a single expression, returned as a list of one.
\<close>

definition asExpOrList :: "Expression option \<Rightarrow> error + Expression list" where
  "asExpOrList arg =
     (case arg of
        None \<Rightarrow> Inl (Err ''empty argument'')
      | Some a \<Rightarrow>
          (if Op a = ''@list'' \<and> Arg a = None
           then (case Literal a of LExprs es \<Rightarrow> Inr es | _ \<Rightarrow> Inr [a])
           else Inr [a]))"

text \<open>
  Modelled from the spec: \<open>GetJSONPath\<close>, defined outside the sources at hand. A string
  that does not begin with \<open>$\<close> stands for itself; a string that begins with \<open>$\<close> is a
  JSONPath; the bare \<open>$\<close> inside a higher-order operator is the element being iterated, the
  subject of the context (scenario 4 of the spec). Every longer path is left to the reader
  of paths.
\<close>

definition GetJSONPath :: "externals \<Rightarrow> evalCtx \<Rightarrow> string \<Rightarrow> error + val" where
  "GetJSONPath ext ctx key =
     (if length key = 0 \<or> hd key \<noteq> CHR ''$'' then Inr (VString key)
      else if key = ''$'' then Inr (subject ctx)
      else getPath ext ctx key)"

text \<open>
  \<open>unpackList\<close>. Its argument is always the \<open>[]any\<close> built by \<open>@list\<close>; the branch for a
  slice whose static element type is itself a slice cannot be taken by such a value. An
  element is \<open>nil\<close> or not a \<open>[]any\<close> exactly when it is not a \<open>VList\<close>.
\<close>

definition unpackList :: "val \<Rightarrow> val list" where
  "unpackList a =
     (case a of
        VList xs \<Rightarrow>
          (if length xs = 0 then []
           else (case xs ! 0 of VList vs \<Rightarrow> vs | _ \<Rightarrow> xs))
      | _ \<Rightarrow> [a])"

text \<open>\<open>reflect.DeepEqual\<close> on values; two maps are equal when they have the same keys with equal values.\<close>

fun DeepEqual :: "externals \<Rightarrow> val \<Rightarrow> val \<Rightarrow> bool" where
  "DeepEqual ext VNil w = (w = VNil)"
| "DeepEqual ext (VBool a) w = (w = VBool a)"
| "DeepEqual ext (VInt a) w = (w = VInt a)"
| "DeepEqual ext (VFloat a) w = (case w of VFloat b \<Rightarrow> floatEq ext a b | _ \<Rightarrow> False)"
| "DeepEqual ext (VString a) w = (w = VString a)"
| "DeepEqual ext (VList xs) w =
     (case w of VList ys \<Rightarrow> list_all2 (DeepEqual ext) xs ys | _ \<Rightarrow> False)"
| "DeepEqual ext (VMap m) w =
     (case w of
        VMap n \<Rightarrow>
          length m = length n
          \<and> list_all (\<lambda>(k, v). case map_of n k of None \<Rightarrow> False | Some v' \<Rightarrow> DeepEqual ext v v') m
      | _ \<Rightarrow> False)"

subsection \<open>Evaluation\<close>

text \<open>
  The operators of the last \<open>switch\<close> of \<open>Evaluate\<close>, which work on the value \<open>arg\<close> of
  the argument. \<open>e\<close> is the expression, for the error.
\<close>

definition applyOp :: "externals \<Rightarrow> Expression \<Rightarrow> val \<Rightarrow> error + val" where
  "applyOp ext e arg =
     (let op = Op e in
      if op = ''@isnil'' then Inr (VBool (arg = VNil))
      else if op = ''@exists'' then Inr (VBool (arg \<noteq> VNil))
      else if op = ''@not'' then
        (case asBool arg of
           Inl err \<Rightarrow> Inl (ExpressionError e err)
         | Inr b \<Rightarrow> Inr (VBool (\<not> b)))
      else if op = ''@eq'' then
        (case asList arg of
           Inl err \<Rightarrow> Inl (ExpressionError e err)
         | Inr args \<Rightarrow>
             if length args \<noteq> 2 then Inl (ExpressionError e (Err ''expected 2 arguments''))
             else Inr (VBool (DeepEqual ext (args ! 0) (args ! 1))))
      else if op = ''@and'' then
        (case asBoolList arg of
           Inl err \<Rightarrow> Inl (ExpressionError e err)
         | Inr args \<Rightarrow> Inr (VBool (foldl (\<lambda>v b. v \<and> b) True args)))
      else if op = ''@or'' then
        (case asBoolList arg of
           Inl err \<Rightarrow> Inl (ExpressionError e err)
         | Inr args \<Rightarrow> Inr (VBool (foldl (\<lambda>v b. v \<or> b) False args)))
      else if op = ''@lt'' then
        (case asBinaryIntOrFloatList ext arg of
           Inl err \<Rightarrow> Inl (ExpressionError e err)
         | Inr (is, fs, k) \<Rightarrow>
             if k = Int64 then Inr (VBool (sint (is ! 0) < sint (is ! 1)))
             else Inr (VBool (floatLess ext (fs ! 0) (fs ! 1))))
      else if op = ''@lte'' then
        (case asBinaryIntOrFloatList ext arg of
           Inl err \<Rightarrow> Inl (ExpressionError e err)
         | Inr (is, fs, k) \<Rightarrow>
             if k = Int64 then Inr (VBool (sint (is ! 0) \<le> sint (is ! 1)))
             else Inr (VBool (floatLessEq ext (fs ! 0) (fs ! 1))))
      else if op = ''@gt'' then
        (case asBinaryIntOrFloatList ext arg of
           Inl err \<Rightarrow> Inl (ExpressionError e err)
         | Inr (is, fs, k) \<Rightarrow>
             if k = Int64 then Inr (VBool (sint (is ! 0) > sint (is ! 1)))
             else Inr (VBool (floatLess ext (fs ! 1) (fs ! 0))))
      else if op = ''@gte'' then
        (case asBinaryIntOrFloatList ext arg of
           Inl err \<Rightarrow> Inl (ExpressionError e err)
         | Inr (is, fs, k) \<Rightarrow>
             if k = Int64 then Inr (VBool (sint (is ! 0) \<ge> sint (is ! 1)))
             else Inr (VBool (floatLessEq ext (fs ! 1) (fs ! 0))))
      else if op = ''@selector'' then
        (case asList arg of
           Inl err \<Rightarrow> Inl (ExpressionError e err)
         | Inr args \<Rightarrow>
             if length args \<noteq> 2
             then Inl (ExpressionError e (Err ''invalid arguments: expected 2 arguments''))
             else if args ! 0 = VNil \<or> args ! 1 = VNil then Inr (VBool False)
             else
               (case asObject (args ! 0) of
                  Inl err \<Rightarrow> Inl (ExpressionError e (Wrap ''invalid label selector'' err))
                | Inr selector \<Rightarrow>
                    (case asObject (args ! 1) of
                       Inl err \<Rightarrow> Inl (ExpressionError e (Wrap ''invalid label set'' err))
                     | Inr labels \<Rightarrow>
                         (case matchLabels ext labels selector of
                            Inl err \<Rightarrow> Inl (Wrap ''failed to evaluate label selector'' err)
                          | Inr res \<Rightarrow>
                              (case asBool res of
                                 Inl err \<Rightarrow>
                                   Inl (ExpressionError e
                                     (Wrap ''expected label selector expression to evaluate to boolean''
                                        err))
                               | Inr v \<Rightarrow> Inr (VBool v))))))
      else if op = ''@abs'' then
        (case asFloat ext arg of
           Inl err \<Rightarrow> Inl (ExpressionError e err)
         | Inr f \<Rightarrow> Inr (VFloat (floatAbs ext f)))
      else if op = ''@ceil'' then
        (case asFloat ext arg of
           Inl err \<Rightarrow> Inl (ExpressionError e err)
         | Inr f \<Rightarrow> Inr (VFloat (floatCeil ext f)))
      else if op = ''@floor'' then
        (case asFloat ext arg of
           Inl err \<Rightarrow> Inl (ExpressionError e err)
         | Inr f \<Rightarrow> Inr (VFloat (floatFloor ext f)))
      else if op = ''@sum'' then
        (case asIntOrFloatList ext arg of
           Inl err \<Rightarrow> Inl (ExpressionError e err)
         | Inr (is, fs, k) \<Rightarrow>
             if k = Int64 then Inr (VInt (foldl (+) 0 is))
             else Inr (VFloat (foldl (floatAdd ext) float_zero fs)))
      else if op = ''@len'' then
        (case asList arg of
           Inl err \<Rightarrow> Inl (ExpressionError e err)
         | Inr args \<Rightarrow> Inr (VInt (word_of_nat (length args))))
      else if op = ''@in'' then
        (case asList arg of
           Inl err \<Rightarrow> Inl (ExpressionError e err)
         | Inr args \<Rightarrow>
             if length args \<noteq> 2 then Inl (ExpressionError e (Err ''expected 2 arguments''))
             else
               (case asList (args ! 1) of
                  Inl err \<Rightarrow> Inl (ExpressionError e err)
                | Inr list \<Rightarrow> Inr (VBool (list_ex (\<lambda>x. DeepEqual ext x (args ! 0)) list))))
      else if op = ''@concat'' then
        (case asStringList arg of
           Inl err \<Rightarrow> Inl (ExpressionError e err)
         | Inr args \<Rightarrow> Inr (VString (foldl (@) [] args)))
      else Inl (ExpressionError e (Err ''unknown op'')))"

text \<open>
  The loops of the higher-order operators. Each takes the elements of the list paired with
  the result of evaluating the first argument on them, and stops at the first element whose
  result is an error or not a boolean; \<open>@any\<close>, \<open>@all\<close> and \<open>@none\<close> also stop at the
  first element that decides them, without a look at the results after it.
\<close>

definition notBoolean :: "Expression \<Rightarrow> error \<Rightarrow> error" where
  "notBoolean e err =
     ExpressionError e (Wrap ''expected conditional expression to evaluate to boolean'' err)"

fun filterLoop :: "Expression \<Rightarrow> (val \<times> (error + val)) list \<Rightarrow> error + val list" where
  "filterLoop e [] = Inr []"
| "filterLoop e ((input, Inl err) # rest) = Inl err"
| "filterLoop e ((input, Inr res) # rest) =
     (case asBool res of
        Inl err \<Rightarrow> Inl (notBoolean e err)
      | Inr b \<Rightarrow>
          (case filterLoop e rest of
             Inl err \<Rightarrow> Inl err
           | Inr vs \<Rightarrow> Inr (if b then input # vs else vs)))"

text \<open>\<open>untilLoop stop dflt\<close>: the result is \<open>\<not> dflt\<close> at the first element whose boolean is \<open>stop\<close>.\<close>

fun untilLoop ::
  "bool \<Rightarrow> bool \<Rightarrow> Expression \<Rightarrow> (val \<times> (error + val)) list \<Rightarrow> error + bool" where
  "untilLoop stop dflt e [] = Inr dflt"
| "untilLoop stop dflt e ((input, Inl err) # rest) = Inl err"
| "untilLoop stop dflt e ((input, Inr res) # rest) =
     (case asBool res of
        Inl err \<Rightarrow> Inl (notBoolean e err)
      | Inr b \<Rightarrow> if b = stop then Inr (\<not> dflt) else untilLoop stop dflt e rest)"

text \<open>The loop of \<open>@dict\<close> over the entries of a map literal, each with the value of its expression.\<close>

fun dictLoop ::
  "externals \<Rightarrow> evalCtx \<Rightarrow> Expression \<Rightarrow> (string \<times> (error + val)) list
     \<Rightarrow> (string \<times> val) list \<Rightarrow> error + (string \<times> val) list" where
  "dictLoop ext ctx e [] ret = Inr ret"
| "dictLoop ext ctx e ((k, Inl err) # rest) ret = Inl err"
| "dictLoop ext ctx e ((k, Inr res) # rest) ret =
     (case setPath ext ctx k res ret of
        Inl err \<Rightarrow>
          Inl (ExpressionError e (Wrap ''could not deference JSON set expression'' err))
      | Inr ret' \<Rightarrow> dictLoop ext ctx e rest ret')"

text \<open>The value coerced by a scalar terminal: the value of the argument, or else the literal.\<close>

definition stacked :: "(error + val) option \<Rightarrow> literal \<Rightarrow> error + literal" where
  "stacked sub lit =
     (case sub of None \<Rightarrow> Inr lit | Some (Inl err) \<Rightarrow> Inl err | Some (Inr v) \<Rightarrow> Inr (LVal v))"

text \<open>
  An error of the list argument of a higher-order operator is replaced by a fixed message.
\<close>

definition replaceError :: "string \<Rightarrow> error + 'a \<Rightarrow> error + 'a" where
  "replaceError msg r =
     (case r of Inl (Panic p) \<Rightarrow> Inl (Panic p) | Inl _ \<Rightarrow> Inl (Err msg) | Inr v \<Rightarrow> Inr v)"

lemma asExpOrList_size:
  assumes "asExpOrList arg = Inr args" and "x \<in> set args"
  shows "size x < size (Expression op arg lit)"
proof (cases arg)
  case None
  with assms show ?thesis by (simp add: asExpOrList_def)
next
  case (Some a)
  obtain o' a' l' where a: "a = Expression o' a' l'" by (cases a)
  show ?thesis
  proof (cases "o' = ''@list'' \<and> a' = None \<and> (\<exists>es. l' = LExprs es)")
    case True
    then obtain es where "l' = LExprs es" by blast
    with True Some a assms have "x \<in> set es" by (simp add: asExpOrList_def)
    then have "size x < Suc (size_list size es)"
      by (induction es) auto
    with Some a True \<open>l' = LExprs es\<close> show ?thesis by simp
  next
    case False
    with Some a assms have "x = a"
      by (auto simp: asExpOrList_def split: option.splits literal.splits if_splits)
    with Some show ?thesis by simp
  qed
qed

text \<open>Sub-expressions are smaller than the expression: the recursions below end.\<close>

lemma size_Arg: "size a < size (Expression op (Some a) lit)"
  by simp

lemma size_LExprs: "x \<in> set es \<Longrightarrow> size x < size (Expression op arg (LExprs es))"
  by (induction es) auto

lemma size_LExprMap: "(k, x) \<in> set m \<Longrightarrow> size x < size (Expression op arg (LExprMap m))"
  by (induction m) auto

lemma size_asExpOrList:
  "asExpOrList arg = Inr args \<Longrightarrow> i < length args \<Longrightarrow> size (args ! i) < size (Expression op arg lit)"
  using asExpOrList_size [of arg args "args ! i" op lit] by simp

lemma size_Literal: "size lit < size (Expression op arg lit)"
  by simp

lemma size_in_LExprs: "x \<in> set es \<Longrightarrow> size x < size (LExprs es)"
  by (induction es) auto

lemma size_in_LExprMap: "(k, x) \<in> set m \<Longrightarrow> size x < size (LExprMap m)"
  by (induction m) auto

text \<open>
  \<open>Evaluate\<close>. An expression with an empty operator does not get as far as the error
  that the first lines build: the message is made with \<open>e.String()\<close>, that is with
  \<open>MarshalJSON\<close>, which indexes the empty operator and panics. \<open>@map\<close> indexes its
  arguments without a look at their number. The three cases \<open>@any\<close>, \<open>@all\<close> and
  \<open>@none\<close>, which differ in their loop only, are one case here. Logging is left out; its
  lines print \<open>e.String()\<close> too, which panics only on an expression that holds an empty
  operator somewhere, and no expression made by \<open>UnmarshalJSON\<close> does.
\<close>

function Evaluate :: "externals \<Rightarrow> evalCtx \<Rightarrow> Expression \<Rightarrow> error + val" where
  "Evaluate ext ctx (Expression op arg lit) =
     (let e = Expression op arg lit in
      if length op = 0 then Inl (Panic ''index out of range [0] with length 0'')
      else if op = ''@bool'' then
        (case stacked (map_option (Evaluate ext ctx) arg) lit of
           Inl err \<Rightarrow> Inl err
         | Inr l \<Rightarrow>
             (case coerceLiteral asBool l of
                Inl err \<Rightarrow> Inl (ExpressionError e err)
              | Inr v \<Rightarrow> Inr (VBool v)))
      else if op = ''@int'' then
        (case stacked (map_option (Evaluate ext ctx) arg) lit of
           Inl err \<Rightarrow> Inl err
         | Inr l \<Rightarrow>
             (case coerceLiteral asInt l of
                Inl err \<Rightarrow> Inl (ExpressionError e err)
              | Inr v \<Rightarrow> Inr (VInt v)))
      else if op = ''@float'' then
        (case stacked (map_option (Evaluate ext ctx) arg) lit of
           Inl err \<Rightarrow> Inl err
         | Inr l \<Rightarrow>
             (case coerceLiteral (asFloat ext) l of
                Inl err \<Rightarrow> Inl (ExpressionError e err)
              | Inr v \<Rightarrow> Inr (VFloat v)))
      else if op = ''@string'' then
        (case stacked (map_option (Evaluate ext ctx) arg) lit of
           Inl err \<Rightarrow> Inl err
         | Inr l \<Rightarrow>
             (case coerceLiteral asString l of
                Inl err \<Rightarrow> Inl (ExpressionError e err)
              | Inr str \<Rightarrow> GetJSONPath ext ctx str))
      else if op = ''@list'' then
        (case arg of
           Some a \<Rightarrow>
             (case Evaluate ext ctx a of
                Inl err \<Rightarrow> Inl err
              | Inr v \<Rightarrow>
                  (case v of
                     VList vs \<Rightarrow> Inr (VList (unpackList (VList vs)))
                   | _ \<Rightarrow> Inl (ExpressionError e (Err ''argument must be a list''))))
         | None \<Rightarrow>
             (case lit of
                LExprs vs \<Rightarrow>
                  (case collect (map (Evaluate ext ctx) vs) of
                     Inl err \<Rightarrow> Inl err
                   | Inr ret \<Rightarrow> Inr (VList (unpackList (VList ret))))
              | _ \<Rightarrow> Inl (ExpressionError e (Err ''argument must be an expression list''))))
      else if op = ''@dict'' then
        (case arg of
           Some a \<Rightarrow>
             (case Evaluate ext ctx a of
                Inl err \<Rightarrow> Inl err
              | Inr v \<Rightarrow>
                  (case v of
                     VMap vs \<Rightarrow> Inr (VMap vs)
                   | _ \<Rightarrow> Inl (ExpressionError e (Err ''argument must be a map''))))
         | None \<Rightarrow>
             (case lit of
                LExprMap vm \<Rightarrow>
                  (case dictLoop ext ctx e (map (\<lambda>(k, exp). (k, Evaluate ext ctx exp)) vm) [] of
                     Inl err \<Rightarrow> Inl err
                   | Inr ret \<Rightarrow> Inr (VMap ret))
              | LVal (VMap m) \<Rightarrow>
                  Inl (ExpressionError e (Err ''argument must be a string->expression map''))
              | _ \<Rightarrow> Inl (ExpressionError e (Err ''argument must be a map literal''))))
      else if op = ''@filter'' then
        (case asExpOrList arg of
           Inl err \<Rightarrow> Inl (ExpressionError e err)
         | Inr args \<Rightarrow>
             if length args \<noteq> 2
             then Inl (ExpressionError e (Err ''invalid arguments: expected 2 arguments''))
             else
               (case replaceError ''failed to evaluate arguments'' (Evaluate ext ctx (args ! 1)) of
                  Inl err \<Rightarrow> Inl err
                | Inr rawArg \<Rightarrow>
                    (case asList rawArg of
                       Inl err \<Rightarrow> Inl (Err ''invalid arguments: expected a list'')
                     | Inr list \<Rightarrow>
                         (case filterLoop e
                                 (map (\<lambda>input.
                                    (input, Evaluate ext (ctx\<lparr>subject := input\<rparr>) (args ! 0))) list) of
                            Inl err \<Rightarrow> Inl err
                          | Inr vs \<Rightarrow> Inr (VList vs)))))
      else if op = ''@any'' \<or> op = ''@all'' \<or> op = ''@none'' then
        (case asExpOrList arg of
           Inl err \<Rightarrow> Inl (ExpressionError e err)
         | Inr args \<Rightarrow>
             if length args \<noteq> 2
             then Inl (ExpressionError e (Err ''invalid arguments: expected 2 arguments''))
             else
               (case replaceError ''failed to evaluate arguments'' (Evaluate ext ctx (args ! 1)) of
                  Inl err \<Rightarrow> Inl err
                | Inr rawArg \<Rightarrow>
                    (case asList rawArg of
                       Inl err \<Rightarrow> Inl (Err ''invalid arguments: expected a list'')
                     | Inr list \<Rightarrow>
                         (case untilLoop (op \<noteq> ''@all'') (op \<noteq> ''@any'') e
                                 (map (\<lambda>input.
                                    (input, Evaluate ext (ctx\<lparr>subject := input\<rparr>) (args ! 0))) list) of
                            Inl err \<Rightarrow> Inl err
                          | Inr v \<Rightarrow> Inr (VBool v)))))
      else if op = ''@map'' then
        (case asExpOrList arg of
           Inl err \<Rightarrow> Inl (ExpressionError e err)
         | Inr args \<Rightarrow>
             if length args < 2 then Inl (Panic ''index out of range'')
             else
               (case replaceError ''failed to evaluate arguments'' (Evaluate ext ctx (args ! 1)) of
                  Inl err \<Rightarrow> Inl err
                | Inr rawArg \<Rightarrow>
                    (case asList rawArg of
                       Inl err \<Rightarrow> Inl (Err ''invalid arguments: expected a list'')
                     | Inr list \<Rightarrow>
                         (case collect
                                 (map (\<lambda>input. Evaluate ext (ctx\<lparr>subject := input\<rparr>) (args ! 0))
                                    list) of
                            Inl err \<Rightarrow> Inl err
                          | Inr vs \<Rightarrow> Inr (VList vs)))))
      else
        (case arg of
           None \<Rightarrow> Inl (ExpressionError e (Err ''empty argument list''))
         | Some a \<Rightarrow>
             (case Evaluate ext ctx a of
                Inl err \<Rightarrow> Inl err
              | Inr v \<Rightarrow>
                  if hd op = CHR ''@'' then applyOp ext e v
                  else Inr (VMap [(op, v)]))))"
  by pat_completeness auto
termination
proof (relation "measure (\<lambda>(ext, ctx, e). size e)", goal_cases)
  case 1
  show ?case by (rule wf_measure)
next
  case 2
  then show ?case by (simp only: in_measure prod.case size_Arg)
next
  case 3
  then show ?case by (simp only: in_measure prod.case size_Arg)
next
  case 4
  then show ?case by (simp only: in_measure prod.case size_Arg)
next
  case 5
  then show ?case by (simp only: in_measure prod.case size_Arg)
next
  case 6
  then show ?case by (simp only: in_measure prod.case size_LExprs)
next
  case 7
  then show ?case by (simp only: in_measure prod.case size_Arg)
next
  case (8 ext ctx op arg lit x m kv k y)
  then have "(k, y) \<in> set m" and "lit = LExprMap m" by simp_all
  with size_LExprMap [of k y m op arg] show ?case by simp
next
  case 9
  then show ?case by (simp only: in_measure prod.case size_Arg)
next
  case 10
  then show ?case by (simp only: in_measure prod.case) (rule size_asExpOrList, auto)
next
  case 11
  then show ?case by (simp only: in_measure prod.case) (rule size_asExpOrList, auto)
next
  case 12
  then show ?case by (simp only: in_measure prod.case) (rule size_asExpOrList, auto)
next
  case 13
  then show ?case by (simp only: in_measure prod.case) (rule size_asExpOrList, auto)
next
  case 14
  then show ?case by (simp only: in_measure prod.case) (rule size_asExpOrList, auto)
next
  case 15
  then show ?case by (simp only: in_measure prod.case) (rule size_asExpOrList, auto)
next
  case 16
  then show ?case by (simp only: in_measure prod.case size_Arg)
qed

declare Evaluate.simps [simp del]

subsection \<open>Reading and writing JSON\<close>

text \<open>
  \<open>json.Unmarshal\<close> into a variable of a fixed type, as \<open>UnmarshalJSON\<close> uses it: a
  document of another shape is a type error (\<open>None\<close>), and \<open>null\<close> is accepted for every
  type and leaves the variable at its initial value. An integer literal fits an \<open>int64\<close>
  when its value is in range; any other number literal does not.
\<close>

definition unmarshal_bool :: "json \<Rightarrow> bool option" where
  "unmarshal_bool b = (case b of JBool v \<Rightarrow> Some v | JNull \<Rightarrow> Some False | _ \<Rightarrow> None)"

definition unmarshal_int64 :: "json \<Rightarrow> int64 option" where
  "unmarshal_int64 b =
     (case b of
        JNumber (JInt n) \<Rightarrow>
          if - (2 ^ 63) \<le> n \<and> n < 2 ^ 63 then Some (word_of_int n) else None
      | JNull \<Rightarrow> Some 0
      | _ \<Rightarrow> None)"

definition unmarshal_float64 :: "externals \<Rightarrow> json \<Rightarrow> float64 option" where
  "unmarshal_float64 ext b =
     (case b of JNumber n \<Rightarrow> parseFloat ext n | JNull \<Rightarrow> Some float_zero | _ \<Rightarrow> None)"

definition unmarshal_string :: "json \<Rightarrow> string option" where
  "unmarshal_string b = (case b of JString s \<Rightarrow> Some s | JNull \<Rightarrow> Some [] | _ \<Rightarrow> None)"

text \<open>
  \<open>UnmarshalJSON\<close>. The library calls it again for every element of an array and every
  value of an object, and gives up the array or the object at the first element that fails.
  In an object with a single key the code indexes the key, which panics when the key is
  empty.
\<close>

fun UnmarshalJSON :: "externals \<Rightarrow> json \<Rightarrow> error + Expression" where
  "UnmarshalJSON ext b =
     (case unmarshal_bool b of
        Some bv \<Rightarrow> Inr (Expression ''@bool'' None (LVal (VBool bv)))
      | None \<Rightarrow>
     (case unmarshal_int64 b of
        Some iv \<Rightarrow> Inr (Expression ''@int'' None (LVal (VInt iv)))
      | None \<Rightarrow>
     (case unmarshal_float64 ext b of
        Some fv \<Rightarrow> Inr (Expression ''@float'' None (LVal (VFloat fv)))
      | None \<Rightarrow>
     (case (case unmarshal_string b of
              Some sv \<Rightarrow> if sv \<noteq> [] then Some sv else None
            | None \<Rightarrow> None) of
        Some sv \<Rightarrow> Inr (Expression ''@string'' None (LVal (VString sv)))
      | None \<Rightarrow>
     (case b of
        JArray els \<Rightarrow>
          (case collect (map (UnmarshalJSON ext) els) of
             Inr mv \<Rightarrow> Inr (Expression ''@list'' None (LExprs mv))
           | Inl (Panic p) \<Rightarrow> Inl (Panic p)
           | Inl _ \<Rightarrow> Inl (UnmarshalError ''expression'' b))
      | JObject kvs \<Rightarrow>
          (case collect (map (\<lambda>(k, j). map_sum id (Pair k) (UnmarshalJSON ext j)) kvs) of
             Inr pairs \<Rightarrow>
               (let cv = make_map pairs in
                if length cv = 1 then
                  (let op = fst (cv ! 0); exp = snd (cv ! 0) in
                   if length op = 0 then Inl (Panic ''index out of range [0] with length 0'')
                   else if hd op = CHR ''@'' then Inr (Expression op (Some exp) (LVal VNil))
                   else Inr (Expression ''@dict'' None (LExprMap cv)))
                else Inr (Expression ''@dict'' None (LExprMap cv)))
           | Inl (Panic p) \<Rightarrow> Inl (Panic p)
           | Inl _ \<Rightarrow> Inl (UnmarshalError ''expression'' b))
      | _ \<Rightarrow> Inl (UnmarshalError ''expression'' b))))))"

declare UnmarshalJSON.simps [simp del]

text \<open>\<open>json.Marshal\<close> of a plain value.\<close>

fun valueJSON :: "externals \<Rightarrow> val \<Rightarrow> error + json" where
  "valueJSON ext VNil = Inr JNull"
| "valueJSON ext (VBool b) = Inr (JBool b)"
| "valueJSON ext (VInt i) = Inr (JNumber (JInt (sint i)))"
| "valueJSON ext (VFloat f) =
     (case formatFloat ext f of
        None \<Rightarrow> Inl (Err ''json: unsupported value'')
      | Some n \<Rightarrow> Inr (JNumber n))"
| "valueJSON ext (VString s) = Inr (JString s)"
| "valueJSON ext (VList xs) =
     (case collect (map (valueJSON ext) xs) of Inl err \<Rightarrow> Inl err | Inr js \<Rightarrow> Inr (JArray js))"
| "valueJSON ext (VMap m) =
     (case collect (map (\<lambda>(k, v). map_sum id (Pair k) (valueJSON ext v)) m) of
        Inl err \<Rightarrow> Inl err
      | Inr js \<Rightarrow> Inr (JObject js))"

text \<open>
  \<open>MarshalJSON\<close>. The library calls it for a pointer to an expression and for the elements
  of a slice of expressions. For the values of a \<open>map[string]Expression\<close>, which cannot be
  addressed, the library does not call it and writes the three fields of the struct instead
  (\<open>marshalStruct\<close>); this is reached only when \<open>@any\<close> writes a literal that holds such a
  map (\<open>marshalAny\<close>), the case \<open>@dict\<close> goes through pointers. A \<open>nil\<close> argument is
  written as \<open>null\<close>.
\<close>

definition keyed :: "string \<Rightarrow> error + json \<Rightarrow> error + json" where
  "keyed op r = (case r of Inl err \<Rightarrow> Inl err | Inr j \<Rightarrow> Inr (JObject [(op, j)]))"

function MarshalJSON :: "externals \<Rightarrow> Expression \<Rightarrow> error + json"
  and marshalAny :: "externals \<Rightarrow> literal \<Rightarrow> error + json"
  and marshalStruct :: "externals \<Rightarrow> Expression \<Rightarrow> error + json" where
  "MarshalJSON ext (Expression op arg lit) =
     (if op = ''@any'' then marshalAny ext lit
      else if op = ''@bool'' then
        (case arg of
           Some a \<Rightarrow> keyed op (MarshalJSON ext a)
         | None \<Rightarrow>
             (case coerceLiteral asBool lit of Inl err \<Rightarrow> Inl err | Inr v \<Rightarrow> Inr (JBool v)))
      else if op = ''@int'' then
        (case arg of
           Some a \<Rightarrow> keyed op (MarshalJSON ext a)
         | None \<Rightarrow>
             (case coerceLiteral asInt lit of
                Inl err \<Rightarrow> Inl err
              | Inr v \<Rightarrow> Inr (JNumber (JInt (sint v)))))
      else if op = ''@float'' then
        (case arg of
           Some a \<Rightarrow> keyed op (MarshalJSON ext a)
         | None \<Rightarrow>
             (case coerceLiteral (asFloat ext) lit of
                Inl err \<Rightarrow> Inl err
              | Inr v \<Rightarrow> valueJSON ext (VFloat v)))
      else if op = ''@string'' then
        (case arg of
           Some a \<Rightarrow> keyed op (MarshalJSON ext a)
         | None \<Rightarrow>
             (case coerceLiteral asString lit of Inl err \<Rightarrow> Inl err | Inr v \<Rightarrow> Inr (JString v)))
      else if op = ''@list'' then
        (case arg of
           Some a \<Rightarrow> MarshalJSON ext a
         | None \<Rightarrow>
             (case lit of
                LExprs es \<Rightarrow>
                  (case collect (map (MarshalJSON ext) es) of
                     Inl err \<Rightarrow> Inl err
                   | Inr js \<Rightarrow> Inr (JArray js))
              | _ \<Rightarrow> Inl (Err ''invalid expression list'')))
      else if op = ''@dict'' then
        (case arg of
           Some a \<Rightarrow> MarshalJSON ext a
         | None \<Rightarrow>
             (case lit of
                LExprMap es \<Rightarrow>
                  (case collect (map (\<lambda>(k, v). map_sum id (Pair k) (MarshalJSON ext v)) es) of
                     Inl err \<Rightarrow> Inl err
                   | Inr js \<Rightarrow> Inr (JObject js))
              | _ \<Rightarrow> Inl (Err ''invalid expression map'')))
      else if length op = 0 then Inl (Panic ''index out of range [0] with length 0'')
      else if hd op \<noteq> CHR ''@'' then Inl (Err ''expected an op starting with @'')
      else
        (case arg of
           Some a \<Rightarrow> keyed op (MarshalJSON ext a)
         | None \<Rightarrow> Inr (JObject [(op, JNull)])))"
| "marshalAny ext (LVal v) = valueJSON ext v"
| "marshalAny ext (LExprs es) =
     (case collect (map (MarshalJSON ext) es) of Inl err \<Rightarrow> Inl err | Inr js \<Rightarrow> Inr (JArray js))"
| "marshalAny ext (LExprMap m) =
     (case collect (map (\<lambda>(k, v). map_sum id (Pair k) (marshalStruct ext v)) m) of
        Inl err \<Rightarrow> Inl err
      | Inr js \<Rightarrow> Inr (JObject js))"
| "marshalStruct ext (Expression op arg lit) =
     (case (case arg of None \<Rightarrow> Inr JNull | Some a \<Rightarrow> MarshalJSON ext a) of
        Inl err \<Rightarrow> Inl err
      | Inr ja \<Rightarrow>
          (case marshalAny ext lit of
             Inl err \<Rightarrow> Inl err
           | Inr jl \<Rightarrow> Inr (JObject [(''Op'', JString op), (''Arg'', ja), (''Literal'', jl)])))"
  by pat_completeness auto
termination
proof (relation "measure (\<lambda>x. case x of Inl (ext, e) \<Rightarrow> size e
                                       | Inr (Inl (ext, l)) \<Rightarrow> size l
                                       | Inr (Inr (ext, e)) \<Rightarrow> size e)", goal_cases)
  case 1
  show ?case by (rule wf_measure)
next
  case 2
  show ?case by (simp only: in_measure sum.case prod.case size_Literal)
next
  case 3
  then show ?case by (simp only: in_measure sum.case prod.case size_Arg)
next
  case 4
  then show ?case by (simp only: in_measure sum.case prod.case size_Arg)
next
  case 5
  then show ?case by (simp only: in_measure sum.case prod.case size_Arg)
next
  case 6
  then show ?case by (simp only: in_measure sum.case prod.case size_Arg)
next
  case 7
  then show ?case by (simp only: in_measure sum.case prod.case size_LExprs)
next
  case 8
  then show ?case by (simp only: in_measure sum.case prod.case size_Arg)
next
  case (9 ext op arg lit m kv k y)
  then have "(k, y) \<in> set m" and "lit = LExprMap m" by simp_all
  with size_LExprMap [of k y m op arg] show ?case by simp
next
  case 10
  then show ?case by (simp only: in_measure sum.case prod.case size_Arg)
next
  case 11
  then show ?case by (simp only: in_measure sum.case prod.case size_Arg)
next
  case 12
  then show ?case by (simp only: in_measure sum.case prod.case size_in_LExprs)
next
  case (13 ext m kv k y)
  then have "(k, y) \<in> set m" by simp
  with size_in_LExprMap [of k y m] show ?case by simp
next
  case 14
  then show ?case by (simp only: in_measure sum.case prod.case size_Arg)
next
  case 15
  then show ?case by (simp only: in_measure sum.case prod.case size_Literal)
qed

declare MarshalJSON.simps [simp del]

subsection \<open>Sample expressions and documents\<close>

text \<open>Shorthands: the terminals as \<open>UnmarshalJSON\<close> builds them, and an operator with its argument.\<close>

definition bool_lit :: "bool \<Rightarrow> Expression" where
  "bool_lit b = Expression ''@bool'' None (LVal (VBool b))"

definition int_lit :: "int64 \<Rightarrow> Expression" where
  "int_lit n = Expression ''@int'' None (LVal (VInt n))"

definition string_lit :: "string \<Rightarrow> Expression" where
  "string_lit s = Expression ''@string'' None (LVal (VString s))"

definition list_lit :: "Expression list \<Rightarrow> Expression" where
  "list_lit es = Expression ''@list'' None (LExprs es)"

definition op_expr :: "string \<Rightarrow> Expression \<Rightarrow> Expression" where
  "op_expr op a = Expression op (Some a) (LVal VNil)"

text \<open>
  The document \<open>{"@filter": [{"@gt": ["$", 3]}, {"@list": [1, 2, 3, 4, 5]}]}\<close> and the
  expression it is parsed to.
\<close>

definition filter_doc :: json where
  "filter_doc =
     JObject [(''@filter'',
       JArray [JObject [(''@gt'', JArray [JString ''$'', JNumber (JInt 3)])],
               JObject [(''@list'', JArray [JNumber (JInt 1), JNumber (JInt 2), JNumber (JInt 3),
                                            JNumber (JInt 4), JNumber (JInt 5)])]])]"

definition filter_expr :: Expression where
  "filter_expr =
     op_expr ''@filter''
       (list_lit [op_expr ''@gt'' (list_lit [string_lit ''$'', int_lit 3]),
                  op_expr ''@list'' (list_lit [int_lit 1, int_lit 2, int_lit 3, int_lit 4, int_lit 5])])"

text \<open>The documents \<open>{"@list": 5}\<close> and \<open>{"@any": [true, [1]]}\<close>.\<close>

definition list5_doc :: json where
  "list5_doc = JObject [(''@list'', JNumber (JInt 5))]"

definition any_doc :: json where
  "any_doc = JObject [(''@any'', JArray [JBool True, JArray [JNumber (JInt 1)]])]"

text \<open>The documents \<open>{"@isnil": []}\<close> and \<open>{"@list": {"@isnil": []}}\<close>.\<close>

definition isnil_doc :: json where
  "isnil_doc = JObject [(''@isnil'', JArray [])]"

definition list_isnil_doc :: json where
  "list_isnil_doc = JObject [(''@list'', isnil_doc)]"

text \<open>The elements of the literal list \<open>[[1, 2], [3]]\<close>.\<close>

definition two_rows :: "Expression list" where
  "two_rows = [list_lit [int_lit 1, int_lit 2], list_lit [int_lit 3]]"

text \<open>
  Stand-ins for the parameters, for closed examples that use none of them, and a context
  without an object.
\<close>

definition no_externals :: externals where
  "no_externals =
     \<lparr>getPath = (\<lambda>ctx key. Inl (Err ''no such path'')),
      setPath = (\<lambda>ctx key v m. Inr (assign key v m)),
      matchLabels = (\<lambda>labels selector. Inr (VBool False)),
      floatOfInt = (\<lambda>i. float_zero),
      floatAdd = (\<lambda>a b. float_zero),
      floatLess = (\<lambda>a b. False),
      floatLessEq = (\<lambda>a b. False),
      floatEq = (\<lambda>a b. False),
      floatAbs = (\<lambda>a. a),
      floatCeil = (\<lambda>a. a),
      floatFloor = (\<lambda>a. a),
      parseFloat = (\<lambda>n. None),
      formatFloat = (\<lambda>f. None)\<rparr>"

definition empty_ctx :: evalCtx where
  "empty_ctx = \<lparr>object = VNil, subject = VNil\<rparr>"

section \<open>Properties of the error reporter\<close>


lemma drop_all_but_last: "st \<noteq> [] \<Longrightarrow> drop (length st - Suc 0) st = [last st]"
  by (induction st) (auto simp: drop_Cons')

lemma copy_down_full:
  assumes "st \<noteq> []"
  shows "(copy_down st)[length st - 1 := err] = tl st @ [err]"
proof -
  have "copy_down st = tl st @ [last st]"
    using assms by (simp add: copy_down_def drop_all_but_last)
  moreover have "length (tl st) = length st - 1" by simp
  ultimately show ?thesis by (simp add: list_update_append)
qed

lemma Push_stack: "errorStack (snd (Push err crit s)) = bounded_push (errorStack s) err"
proof (cases "length (errorStack s) = 10")
  case True
  then have ne: "errorStack s \<noteq> []" by auto
  have "errorStack (snd (Push err crit s)) =
          (copy_down (errorStack s))[length (errorStack s) - 1 := err]"
    using True by (simp add: Push_def ErrorReporterStackSize_def)
  also have "\<dots> = tl (errorStack s) @ [err]" by (rule copy_down_full [OF ne])
  finally show ?thesis using True by (simp add: bounded_push_def)
next
  case False
  then show ?thesis by (simp add: Push_def ErrorReporterStackSize_def bounded_push_def)
qed

lemma Pop_stack: "errorStack (Pop s) = butlast (errorStack s)"
  by (simp add: Pop_def IsEmpty_def butlast_conv_take)

lemma reporter_step_stack:
  "errorStack (reporter_step s c) =
     (case c of CallPop \<Rightarrow> butlast (errorStack s)
      | CallPush e x \<Rightarrow> bounded_push (errorStack s) e
      | CallPushError e \<Rightarrow> bounded_push (errorStack s) e
      | CallPushCriticalError e \<Rightarrow> bounded_push (errorStack s) e)"
  by (cases c) (simp_all add: Push_stack Pop_stack PushError_def PushCriticalError_def)

lemma reporter_run_snoc:
  "reporter_run (calls @ [c]) = reporter_step (reporter_run calls) c"
  by (simp add: reporter_run_def)

lemma unbounded_lifo_snoc:
  "unbounded_lifo (calls @ [c]) = lifo_step (unbounded_lifo calls) c"
  by (simp add: unbounded_lifo_def)

lemma suffix_tl_snoc:
  assumes "suffix xs ys"
  shows "suffix (tl xs @ [e]) (ys @ [e])"
proof -
  from assms have "suffix (tl xs) ys"
    by (meson suffix_order.order_trans suffix_tl)
  then show ?thesis by simp
qed

lemma bounded_push_invariant:
  assumes "length b \<le> 10" and "suffix b u"
  shows "length (bounded_push b e) \<le> 10 \<and> suffix (bounded_push b e) (u @ [e])"
proof (cases "length b = 10")
  case True
  with suffix_tl_snoc [OF assms(2), of e] show ?thesis by (simp add: bounded_push_def)
next
  case False
  with assms show ?thesis by (simp add: bounded_push_def)
qed

lemma butlast_invariant:
  assumes "length b \<le> 10" and "suffix b u"
  shows "length (butlast b) \<le> 10 \<and> suffix (butlast b) (butlast u)"
proof -
  from assms(2) obtain zs where u: "u = zs @ b" by (auto simp: suffix_def)
  have "suffix (butlast b) (butlast u)"
  proof (cases "b = []")
    case True
    then show ?thesis by simp
  next
    case False
    with u have "butlast u = zs @ butlast b" by (simp add: butlast_append)
    then show ?thesis by (simp add: suffix_def)
  qed
  with assms(1) show ?thesis by simp
qed

lemma reporter_invariant:
  "length (errorStack (reporter_run calls)) \<le> 10 \<and>
   suffix (errorStack (reporter_run calls)) (unbounded_lifo calls)"
proof (induction calls rule: rev_induct)
  case Nil
  show ?case by (simp add: reporter_run_def unbounded_lifo_def NewErrorReporter_def)
next
  case (snoc c calls)
  then have len: "length (errorStack (reporter_run calls)) \<le> 10"
    and suf: "suffix (errorStack (reporter_run calls)) (unbounded_lifo calls)" by simp_all
  show ?case
    unfolding reporter_run_snoc unbounded_lifo_snoc reporter_step_stack
    using bounded_push_invariant [OF len suf] butlast_invariant [OF len suf]
    by (cases c) simp_all
qed

lemma Top_bounded_push:
  "errorStack s' = bounded_push b e \<Longrightarrow> Top s' = Some e"
  by (simp add: Top_def IsEmpty_def bounded_push_def nth_append)

lemma most_recent_suffix:
  assumes "suffix b u" and "length b = 10"
  shows "most_recent 10 (u @ [e]) = tl b @ [e]"
proof -
  from assms obtain zs where u: "u = zs @ b" by (auto simp: suffix_def)
  from assms(2) obtain x b' where b: "b = x # b'" by (cases b) auto
  with assms(2) have "length b' = 9" by simp
  with u b show ?thesis by (simp add: most_recent_def)
qed

lemma pushes_only:
  "errorStack (reporter_run (map CallPushError es)) = most_recent 10 es"
proof (induction es rule: rev_induct)
  case Nil
  show ?case by (simp add: reporter_run_def NewErrorReporter_def most_recent_def)
next
  case (snoc e es)
  have "errorStack (reporter_run (map CallPushError (es @ [e]))) =
          bounded_push (most_recent 10 es) e"
    using snoc by (simp add: reporter_run_snoc PushError_def Push_stack)
  also have "\<dots> = most_recent 10 (es @ [e])"
  proof (cases "length es < 10")
    case True
    then show ?thesis by (simp add: bounded_push_def most_recent_def)
  next
    case False
    then have "Suc (length es - 10) = length es - 9" by simp
    moreover have "tl (drop (length es - 10) es) = drop (Suc (length es - 10)) es"
      by (simp add: drop_Suc tl_drop)
    ultimately show ?thesis using False by (simp add: bounded_push_def most_recent_def)
  qed
  finally show ?case .
qed

lemma pushed_snoc:
  "pushed (calls @ [c]) = pushed calls @ (case c of CallPop \<Rightarrow> [] | CallPush e x \<Rightarrow> [e]
      | CallPushError e \<Rightarrow> [e] | CallPushCriticalError e \<Rightarrow> [e])"
  by (induction calls rule: pushed.induct) (simp_all split: reporter_call.splits)

lemma bounded_push_most_recent:
  "bounded_push (most_recent 10 es) e = most_recent 10 (es @ [e])"
proof (cases "length es < 10")
  case True
  then show ?thesis by (simp add: bounded_push_def most_recent_def)
next
  case False
  then have "Suc (length es - 10) = length es - 9" by simp
  moreover have "tl (drop (length es - 10) es) = drop (Suc (length es - 10)) es"
    by (simp add: drop_Suc tl_drop)
  ultimately show ?thesis using False by (simp add: bounded_push_def most_recent_def)
qed

lemma no_pop_stack:
  "CallPop \<notin> set calls \<Longrightarrow> errorStack (reporter_run calls) = most_recent 10 (pushed calls)"
proof (induction calls rule: rev_induct)
  case Nil
  show ?case by (simp add: reporter_run_def NewErrorReporter_def most_recent_def)
next
  case (snoc c calls)
  then have ih: "errorStack (reporter_run calls) = most_recent 10 (pushed calls)"
    and c: "c \<noteq> CallPop" by auto
  from c show ?case
    by (cases c)
       (simp_all add: reporter_run_snoc PushError_def PushCriticalError_def Push_stack ih
          pushed_snoc bounded_push_most_recent)
qed

lemma Pop_exact: "Pop s = s\<lparr>errorStack := butlast (errorStack s)\<rparr>"
  by (cases "errorStack s = []") (simp_all add: Pop_def IsEmpty_def butlast_conv_take)

text \<open>
  Claim C7 says that after a push onto a full stack the stack holds the ten most recently
  pushed errors, for every sequence of pushes and pops. After ten pushes, a pop and the
  push of 11 the stack is full; the push of 12 leaves 2 to 9, 11 and 12 on it. The ten
  errors pushed last are 3 to 12: the popped 10 is among them and is not on the stack.
\<close>

theorem most_recently_pushed_counterexample:
  "Size (reporter_run pop_then_push) = 10
   \<and> errorStack (snd (PushError 12 (reporter_run pop_then_push)))
       = [2, 3, 4, 5, 6, 7, 8, 9, 11, 12]
   \<and> most_recent 10 (pushed (pop_then_push @ [CallPushError 12]))
       = [3, 4, 5, 6, 7, 8, 9, 10, 11, 12]"
proof -
  have st: "errorStack (reporter_run pop_then_push) = [1, 2, 3, 4, 5, 6, 7, 8, 9, 11]"
    by (simp add: pop_then_push_def ten_pushes_def reporter_run_def NewErrorReporter_def
        PushError_def Push_def Pop_def IsEmpty_def ErrorReporterStackSize_def)
  then have sz: "Size (reporter_run pop_then_push) = 10" by (simp add: Size_def)
  have push: "errorStack (snd (PushError 12 (reporter_run pop_then_push)))
       = [2, 3, 4, 5, 6, 7, 8, 9, 11, 12]"
    by (simp add: PushError_def Push_stack bounded_push_def st)
  have "pushed (pop_then_push @ [CallPushError 12]) = [1, 2, 3, 4, 5, 6, 7, 8, 9, 10, 11, 12]"
    by (simp add: pop_then_push_def ten_pushes_def)
  then have "most_recent 10 (pushed (pop_then_push @ [CallPushError 12]))
       = [3, 4, 5, 6, 7, 8, 9, 10, 11, 12]"
    by (simp add: most_recent_def)
  with sz push show ?thesis by simp
qed

text \<open>
  Claim C7, amended. After any sequence of \<open>Push\<close>, \<open>PushError\<close>, \<open>PushCriticalError\<close>
  and \<open>Pop\<close> calls on a new reporter the stack holds at most ten entries; right after a
  push of either kind \<open>Top\<close> is the error just pushed; a push onto a full stack evicts the
  oldest entry, keeps the other nine in order below the new one, and leaves exactly the ten
  most recent of the errors that were pushed and have not been popped since, in push order
  (the ten most recent entries of the unbounded LIFO that the same calls build). When the
  sequence has no \<open>Pop\<close>, these are the ten errors pushed last. \<open>Pop\<close> removes the top
  entry and nothing else, and does nothing on an empty stack; a push changes the stack as
  said, \<open>PushCriticalError\<close> sets the critical flag as well, and each returns its error.
\<close>

theorem errorReporter_bounded_lifo:
  "Size (reporter_run calls) \<le> ErrorReporterStackSize
   \<and> ErrorReporterStackSize = 10
   \<and> Top (snd (Push e crit (reporter_run calls))) = Some e
   \<and> Top (snd (PushError e (reporter_run calls))) = Some e
   \<and> Top (snd (PushCriticalError e (reporter_run calls))) = Some e
   \<and> (Size (reporter_run calls) = 10 \<longrightarrow>
        errorStack (snd (Push e crit (reporter_run calls)))
          = tl (errorStack (reporter_run calls)) @ [e]
      \<and> errorStack (snd (Push e crit (reporter_run calls)))
          = most_recent 10 (unbounded_lifo (calls @ [CallPush e crit]))
      \<and> Size (snd (Push e crit (reporter_run calls))) = 10)
   \<and> errorStack (snd (PushError e (reporter_run calls)))
       = errorStack (snd (Push e crit (reporter_run calls)))
   \<and> errorStack (snd (PushCriticalError e (reporter_run calls)))
       = errorStack (snd (Push e crit (reporter_run calls)))
   \<and> errorStack (reporter_run (map CallPushError es)) = most_recent 10 es
   \<and> (CallPop \<notin> set calls \<longrightarrow>
        errorStack (reporter_run calls) = most_recent 10 (pushed calls))
   \<and> Pop s = s\<lparr>errorStack := butlast (errorStack s)\<rparr>
   \<and> Push e crit s = (e, s\<lparr>errorStack := bounded_push (errorStack s) e\<rparr>)
   \<and> PushError e s = (e, s\<lparr>errorStack := bounded_push (errorStack s) e\<rparr>)
   \<and> PushCriticalError e s
       = (e, s\<lparr>critical := True, errorStack := bounded_push (errorStack s) e\<rparr>)"
proof -
  let ?s = "reporter_run calls"
  note inv = reporter_invariant [of calls]
  have 1: "Size ?s \<le> ErrorReporterStackSize"
    using inv by (simp add: Size_def ErrorReporterStackSize_def)
  have 2: "Top (snd (Push e crit ?s)) = Some e"
    by (rule Top_bounded_push [OF Push_stack])
  have 3: "Top (snd (PushError e ?s)) = Some e"
    unfolding PushError_def by (rule Top_bounded_push [OF Push_stack])
  have 4: "Top (snd (PushCriticalError e ?s)) = Some e"
    unfolding PushCriticalError_def by (rule Top_bounded_push [OF Push_stack])
  have 5: "errorStack (snd (Push e crit ?s)) = tl (errorStack ?s) @ [e]
      \<and> errorStack (snd (Push e crit ?s))
          = most_recent 10 (unbounded_lifo (calls @ [CallPush e crit]))
      \<and> Size (snd (Push e crit ?s)) = 10" if full: "Size ?s = 10"
  proof -
    from full have len: "length (errorStack ?s) = 10" by (simp add: Size_def)
    have a: "errorStack (snd (Push e crit ?s)) = tl (errorStack ?s) @ [e]"
      using len by (simp add: Push_stack bounded_push_def)
    from inv have "suffix (errorStack ?s) (unbounded_lifo calls)" by simp
    from most_recent_suffix [OF this len, of e]
    have b: "most_recent 10 (unbounded_lifo (calls @ [CallPush e crit])) = tl (errorStack ?s) @ [e]"
      by (simp add: unbounded_lifo_snoc)
    from a len have c: "Size (snd (Push e crit ?s)) = 10" by (simp add: Size_def)
    from a b c show ?thesis by simp
  qed
  have 0: "ErrorReporterStackSize = 10" by (simp add: ErrorReporterStackSize_def)
  have 6: "errorStack (snd (PushError e ?s)) = errorStack (snd (Push e crit ?s))"
    by (simp add: PushError_def Push_stack)
  have 7: "errorStack (snd (PushCriticalError e ?s)) = errorStack (snd (Push e crit ?s))"
    by (simp add: PushCriticalError_def Push_stack)
  have 8: "CallPop \<notin> set calls \<longrightarrow>
        errorStack (reporter_run calls) = most_recent 10 (pushed calls)"
    by (simp add: no_pop_stack)
  have 9: "Push e crit s = (e, s\<lparr>errorStack := bounded_push (errorStack s) e\<rparr>)"
    using Push_stack [of e crit s] by (simp add: Push_def split: if_splits)
  have 10: "PushError e s = (e, s\<lparr>errorStack := bounded_push (errorStack s) e\<rparr>)"
    using Push_stack [of e False s] by (simp add: PushError_def Push_def split: if_splits)
  have 11: "PushCriticalError e s
       = (e, s\<lparr>critical := True, errorStack := bounded_push (errorStack s) e\<rparr>)"
    using Push_stack [of e True "s\<lparr>critical := True\<rparr>"]
    by (simp add: PushCriticalError_def Push_def split: if_splits)
  from 0 1 2 3 4 5 6 7 8 9 10 11 pushes_only [of es] Pop_exact [of s] show ?thesis by blast
qed


theorem errorReporter_bounded_lifo_witness:
  "Size (reporter_run ten_pushes) = 10
   \<and> errorStack (snd (Push 11 False (reporter_run ten_pushes)))
       = [2, 3, 4, 5, 6, 7, 8, 9, 10, 11]"
proof -
  have st: "errorStack (reporter_run ten_pushes) = [1, 2, 3, 4, 5, 6, 7, 8, 9, 10]"
    by (simp add: ten_pushes_def reporter_run_def NewErrorReporter_def PushError_def Push_def
        ErrorReporterStackSize_def)
  then have sz: "Size (reporter_run ten_pushes) = 10" by (simp add: Size_def)
  from errorReporter_bounded_lifo
         [where calls = ten_pushes and e = 11 and crit = False and es = "[]"
            and s = "reporter_run ten_pushes"] sz
  have "errorStack (snd (Push 11 False (reporter_run ten_pushes)))
          = tl (errorStack (reporter_run ten_pushes)) @ [11]"
    by blast
  with st sz show ?thesis by simp
qed

lemma trim_long:
  "245 < length s \<Longrightarrow> trim s = take 119 s @ ''[...]'' @ drop (length s - 120) s"
  by (simp add: trim_def TrimPrefixSuffixLen_def)

lemma trim_long_length: "245 < length s \<Longrightarrow> length (trim s) = 244"
  by (simp add: trim_long)

lemma trim_short: "length s \<le> 245 \<Longrightarrow> trim s = s"
  by (simp add: trim_def TrimPrefixSuffixLen_def)

text \<open>
  Claim C8. \<open>trim\<close> returns a message of at most 245 bytes unchanged (lemma
  \<open>trim_short\<close>). For a longer one the claim promises the first 120 bytes, the marker and
  the last 120 bytes, 245 bytes in all. The code slices \<open>s[0:TrimPrefixSuffixLen-1]\<close>, so it
  keeps the first 119 bytes only and the result is 244 bytes long: on the 246-byte message
  below, byte 120 (the \<open>X\<close>) is lost.
\<close>

theorem trim_drops_byte_120:
  "length long_message = 246
   \<and> trim long_message = replicate 119 CHR ''a'' @ ''[...]'' @ replicate 120 CHR ''b''
   \<and> length (trim long_message) = 244
   \<and> take 120 (trim long_message) \<noteq> take 120 long_message"
proof -
  have len: "length long_message = 246" by (simp add: long_message_def)
  then have "trim long_message = take 119 long_message @ ''[...]'' @ drop 126 long_message"
    by (simp add: trim_def TrimPrefixSuffixLen_def)
  then have t: "trim long_message = replicate 119 CHR ''a'' @ ''[...]'' @ replicate 120 CHR ''b''"
    by (simp add: long_message_def)
  have "take 120 long_message = replicate 119 CHR ''a'' @ ''X''"
    by (simp add: long_message_def)
  moreover have "take 120 (trim long_message) = replicate 119 CHR ''a'' @ ''[''"
    by (simp add: t)
  ultimately have "take 120 (trim long_message) \<noteq> take 120 long_message" by simp
  with len t show ?thesis by simp
qed


section \<open>Properties of the fake runtime cache and of the controller\<close>



text \<open>
  Claim C9. \<open>Get\<close> never looks at its key. With an object in the store it succeeds for
  every key and leaves a deep copy of the stored object in \<open>obj\<close>, whatever the identity of
  the stored object; it returns \<open>NotFound\<close> (for the kind of \<open>obj\<close> and the key) exactly when
  the store is empty, which is the case after \<open>Delete\<close> of any object at all.
\<close>

theorem FakeRuntimeCache_Get_ignores_key:
  "(Store c = Some st \<longrightarrow> Get DeepCopy c key obj = (None, DeepCopy st))
   \<and> (Store c = None \<longrightarrow>
        Get DeepCopy c key obj
          = (Some (NotFound (Group (ObjGVK obj)) (Kind (ObjGVK obj)) (key_String key)), obj))
   \<and> ((\<exists>g r n. fst (Get DeepCopy c key obj) = Some (NotFound g r n)) \<longleftrightarrow> Store c = None)
   \<and> Store (snd (Delete other c)) = None
   \<and> fst (Get DeepCopy (snd (Delete other c)) key obj)
        = Some (NotFound (Group (ObjGVK obj)) (Kind (ObjGVK obj)) (key_String key))
   \<and> Get DeepCopy (snd (Upsert DeepCopy st c)) key obj = (None, DeepCopy (DeepCopy st))"
  by (cases "Store c") (simp_all add: Get_def Delete_def Upsert_def)

theorem FakeRuntimeCache_Get_ignores_key_witness:
  "Store \<lparr>Store = Some pod_a\<rparr> = Some pod_a
   \<and> ObjectKeyFromObject pod_b \<noteq> ObjectKeyFromObject pod_a
   \<and> Get id \<lparr>Store = Some pod_a\<rparr> (ObjectKeyFromObject pod_b) pod_b = (None, pod_a)
   \<and> Store (snd (Delete pod_b \<lparr>Store = Some pod_a\<rparr>)) = None
   \<and> Get id (snd (Delete pod_b \<lparr>Store = Some pod_a\<rparr>)) (ObjectKeyFromObject pod_a) pod_a
        = (Some (NotFound [] ''Pod'' ''default/a''), pod_a)"
  using FakeRuntimeCache_Get_ignores_key
          [of "\<lparr>Store = Some pod_a\<rparr>" pod_a id "ObjectKeyFromObject pod_b" pod_b pod_b]
        FakeRuntimeCache_Get_ignores_key
          [of "snd (Delete pod_b \<lparr>Store = Some pod_a\<rparr>)" pod_a id "ObjectKeyFromObject pod_a"
              pod_a pod_b]
  by (simp add: pod_a_def pod_b_def ObjectKeyFromObject_def key_String_def)

text \<open>
  Claim C1. \<open>New\<close> fails with a configuration error, the same whatever the set-up would do
  (it is never reached, so no controller exists to be started), when the sources are empty
  (\<open>no source\<close>), when the target is the empty target (\<open>no target\<close>), or when there are
  two or more sources and the pipeline has no join. For every other configuration the three
  checks pass and \<open>New\<close> goes on to the set-up.
\<close>

theorem New_config_checks:
  "((Sources config = [] \<or> Target config = emptyTarget
      \<or> (1 < length (Sources config) \<and> Join (Pipeline config) = None))
     \<longrightarrow> (\<exists>msg. \<forall>setup. New setup config = Inl (ErrorsNew msg)))
   \<and> (Sources config = [] \<longrightarrow> (\<forall>setup. New setup config = Inl (ErrorsNew ''no source'')))
   \<and> (Sources config \<noteq> [] \<and> Target config = emptyTarget
        \<longrightarrow> (\<forall>setup. New setup config = Inl (ErrorsNew ''no target'')))
   \<and> (Sources config \<noteq> [] \<and> Target config \<noteq> emptyTarget \<and> 1 < length (Sources config)
        \<and> Join (Pipeline config) = None
        \<longrightarrow> (\<forall>setup. New setup config = Inl (ErrorsNew
              ''controllers defined on multiple base resources must specify a Join in the pipeline'')))
   \<and> (Sources config \<noteq> [] \<and> Target config \<noteq> emptyTarget
        \<and> (1 < length (Sources config) \<longrightarrow> Join (Pipeline config) \<noteq> None)
        \<longrightarrow> (\<forall>setup. New setup config = setup config))"
proof -
  have a: "\<forall>setup. New setup config = Inl (ErrorsNew ''no source'')" if "Sources config = []"
    using that by (simp add: New_def)
  have b: "\<forall>setup. New setup config = Inl (ErrorsNew ''no target'')"
    if "Sources config \<noteq> []" and "Target config = emptyTarget"
    using that by (simp add: New_def)
  have c: "\<forall>setup. New setup config = Inl (ErrorsNew
              ''controllers defined on multiple base resources must specify a Join in the pipeline'')"
    if "Sources config \<noteq> []" and "Target config \<noteq> emptyTarget"
      and "1 < length (Sources config)" and "Join (Pipeline config) = None"
    using that by (simp add: New_def)
  have d: "\<forall>setup. New setup config = setup config"
    if "Sources config \<noteq> []" and "Target config \<noteq> emptyTarget"
      and "1 < length (Sources config) \<longrightarrow> Join (Pipeline config) \<noteq> None"
    using that by (auto simp: New_def)
  have e: "\<exists>msg. \<forall>setup. New setup config = Inl (ErrorsNew msg)"
    if "Sources config = [] \<or> Target config = emptyTarget
      \<or> (1 < length (Sources config) \<and> Join (Pipeline config) = None)"
  proof (cases "Sources config = []")
    case True
    from a [OF True] show ?thesis by (rule exI)
  next
    case ne: False
    show ?thesis
    proof (cases "Target config = emptyTarget")
      case True
      from b [OF ne True] show ?thesis by (rule exI)
    next
      case False
      with that ne have "1 < length (Sources config)" and "Join (Pipeline config) = None"
        by simp_all
      from c [OF ne False this] show ?thesis by (rule exI)
    qed
  qed
  from a b c d e show ?thesis by blast
qed

theorem New_config_checks_witness:
  "New sample_setup (two_sources\<lparr>Sources := []\<rparr>) = Inl (ErrorsNew ''no source'')
   \<and> New sample_setup (two_sources\<lparr>Target := emptyTarget\<rparr>) = Inl (ErrorsNew ''no target'')
   \<and> New sample_setup no_join
     = Inl (ErrorsNew
        ''controllers defined on multiple base resources must specify a Join in the pipeline'')
   \<and> New sample_setup two_sources = Inr 2"
proof -
  have t: "Target two_sources \<noteq> emptyTarget"
    by (simp add: two_sources_def emptyTarget_def)
  have "Sources (two_sources\<lparr>Sources := []\<rparr>) = []" by simp
  with New_config_checks [of "two_sources\<lparr>Sources := []\<rparr>"]
  have 1: "New sample_setup (two_sources\<lparr>Sources := []\<rparr>) = Inl (ErrorsNew ''no source'')"
    by blast
  have "Sources (two_sources\<lparr>Target := emptyTarget\<rparr>) \<noteq> []
        \<and> Target (two_sources\<lparr>Target := emptyTarget\<rparr>) = emptyTarget"
    by (simp add: two_sources_def)
  with New_config_checks [of "two_sources\<lparr>Target := emptyTarget\<rparr>"]
  have 2: "New sample_setup (two_sources\<lparr>Target := emptyTarget\<rparr>) = Inl (ErrorsNew ''no target'')"
    by blast
  have "Sources no_join \<noteq> [] \<and> Target no_join \<noteq> emptyTarget
        \<and> 1 < length (Sources no_join) \<and> Join (Pipeline no_join) = None"
    using t by (simp add: no_join_def) (simp add: two_sources_def)
  with New_config_checks [of no_join]
  have 3: "New sample_setup no_join = Inl (ErrorsNew
        ''controllers defined on multiple base resources must specify a Join in the pipeline'')"
    by blast
  have "Sources two_sources \<noteq> [] \<and> Target two_sources \<noteq> emptyTarget
        \<and> (1 < length (Sources two_sources) \<longrightarrow> Join (Pipeline two_sources) \<noteq> None)"
    using t by (simp add: two_sources_def)
  with New_config_checks [of two_sources]
  have "New sample_setup two_sources = sample_setup two_sources" by blast
  then have 4: "New sample_setup two_sources = Inr 2"
    by (simp add: sample_setup_def two_sources_def)
  from 1 2 3 4 show ?thesis by blast
qed


lemma write_trace_Nil: "write_trace [] None []"
  by (simp add: write_trace_def)

lemma write_trace_fail: "write_trace (d # ds) (Some (Errorf ''controller: cannot update target'' err)) [(d, Some err)]"
  by (simp add: write_trace_def)

lemma write_trace_Cons:
  "write_trace ds r tr \<Longrightarrow> write_trace (d # ds) r ((d, None) # tr)"
  by (cases tr) (auto simp: write_trace_def split: option.splits)

lemma applyDeltas_trace:
  "\<exists>tr. writes (snd (applyDeltas env ds c)) = writes c @ tr
        \<and> write_trace ds (fst (applyDeltas env ds c)) tr"
proof (induction ds arbitrary: c)
  case Nil
  show ?case by (simp add: write_trace_Nil)
next
  case (Cons d ds)
  obtain r w where tw: "targetWrite env (cluster c) d = (r, w)" by (cases "targetWrite env (cluster c) d")
  show ?case
  proof (cases r)
    case (Some err)
    with tw have "writes (snd (applyDeltas env (d # ds) c)) = writes c @ [(d, Some err)]"
      and "fst (applyDeltas env (d # ds) c) = Some (Errorf ''controller: cannot update target'' err)"
      by simp_all
    with write_trace_fail [of d ds err] show ?thesis by metis
  next
    case None
    let ?c = "c\<lparr>cluster := w, writes := writes c @ [(d, None)]\<rparr>"
    from None tw have eq: "applyDeltas env (d # ds) c = applyDeltas env ds ?c" by simp
    from Cons.IH [of ?c] obtain tr where
      tr: "writes (snd (applyDeltas env ds ?c)) = writes ?c @ tr"
      and wt: "write_trace ds (fst (applyDeltas env ds ?c)) tr" by blast
    from tr have "writes (snd (applyDeltas env ds ?c)) = writes c @ ((d, None) # tr)"
      by simp
    then have "writes (snd (applyDeltas env (d # ds) c)) = writes c @ ((d, None) # tr)"
      by (simp only: eq)
    moreover from wt have "write_trace (d # ds) (fst (applyDeltas env (d # ds) c)) ((d, None) # tr)"
      unfolding eq by (rule write_trace_Cons)
    ultimately show ?thesis by blast
  qed
qed

text \<open>
  Claim C2 says that a failed write does not keep the later deltas from being written. In
  the code the loop returns on the first failed write. Here the pipeline yields two deltas,
  the write of the first fails, and the second is never written.
\<close>

theorem processRequest_writes_all_counterexample:
  "fst (pipelineEvaluate sample_env () \<lparr>Type = Updated, Object = sample_object ''web''\<rparr>)
     = Inr [\<lparr>Type = Deleted, Object = sample_object ''web''\<rparr>,
            \<lparr>Type = Added, Object = sample_object ''web''\<rparr>]
   \<and> processRequest sample_env sample_controller (sample_request ''web'')
     = (Some (Errorf ''controller: cannot update target'' ''conflict''),
        sample_controller\<lparr>writes := [(\<lparr>Type = Deleted, Object = sample_object ''web''\<rparr>, Some ''conflict'')]\<rparr>)
   \<and> \<lparr>Type = Added, Object = sample_object ''web''\<rparr>
       \<notin> fst ` set (writes (snd (processRequest sample_env sample_controller (sample_request ''web''))))"
  by (simp add: sample_env_def sample_controller_def sample_request_def sample_object_def
      processRequest_def fetchObject_def requestObject_def ObjectKeyFromObject_def)

text \<open>
  Claim C2, amended. When the pipeline yields the deltas \<open>ds\<close> for a request,
  \<open>processRequest\<close> calls \<open>target.Write\<close> on them in order up to and including the first
  delta whose write fails; it then returns that error, wrapped, and writes none of the deltas
  after it. When no write fails, every delta of \<open>ds\<close> is written, in order, and no error is
  returned.
\<close>

theorem processRequest_writes_until_first_error:
  assumes "fetchObject env c req = (None, obj)"
    and "pipelineEvaluate env (engine c) \<lparr>Type = EventType req, Object = obj\<rparr> = (Inr ds, eng)"
  shows "\<exists>tr. writes (snd (processRequest env c req)) = writes c @ tr
             \<and> write_trace ds (fst (processRequest env c req)) tr"
proof -
  from assms have "processRequest env c req = applyDeltas env ds (c\<lparr>engine := eng\<rparr>)"
    by (simp add: processRequest_def)
  with applyDeltas_trace [of env ds "c\<lparr>engine := eng\<rparr>"] show ?thesis by simp
qed

theorem processRequest_writes_until_first_error_witness:
  "fetchObject sample_env sample_controller (sample_request ''web'') = (None, sample_object ''web'')
   \<and> pipelineEvaluate sample_env (engine sample_controller)
        \<lparr>Type = EventType (sample_request ''web''), Object = sample_object ''web''\<rparr>
       = (Inr [\<lparr>Type = Deleted, Object = sample_object ''web''\<rparr>,
               \<lparr>Type = Added, Object = sample_object ''web''\<rparr>], ())
   \<and> (\<exists>tr. writes (snd (processRequest sample_env sample_controller (sample_request ''web'')))
              = writes sample_controller @ tr
          \<and> write_trace [\<lparr>Type = Deleted, Object = sample_object ''web''\<rparr>,
                          \<lparr>Type = Added, Object = sample_object ''web''\<rparr>]
              (fst (processRequest sample_env sample_controller (sample_request ''web''))) tr)"
proof -
  have f: "fetchObject sample_env sample_controller (sample_request ''web'')
             = (None, sample_object ''web'')"
    by (simp add: fetchObject_def sample_env_def sample_request_def sample_object_def)
  have e: "pipelineEvaluate sample_env (engine sample_controller)
        \<lparr>Type = EventType (sample_request ''web''), Object = sample_object ''web''\<rparr>
       = (Inr [\<lparr>Type = Deleted, Object = sample_object ''web''\<rparr>,
               \<lparr>Type = Added, Object = sample_object ''web''\<rparr>], ())"
    by (simp add: sample_env_def sample_request_def sample_object_def requestObject_def)
  from processRequest_writes_until_first_error [OF f e] f e show ?thesis by blast
qed

lemma taken_up_append: "taken_up (a @ b) = taken_up a @ taken_up b"
  by (induction a rule: taken_up.induct) simp_all

lemma Start_loop_taken_up:
  "taken_up (snd (snd (Start_loop processor c lg evs))) = taken_up lg @ received evs"
proof (induction evs arbitrary: c lg)
  case Nil
  show ?case by simp
next
  case (Cons ev evs)
  show ?case
  proof (cases ev)
    case CtxDone
    then show ?thesis by (simp add: taken_up_append)
  next
    case (Recv req)
    then show ?thesis
      by (cases "processor c req") (auto simp: Cons.IH taken_up_append split: option.splits)
  qed
qed

lemma Start_loop_result:
  "fst (Start_loop processor c lg evs) = (if CtxDone \<in> set evs then Returned None else Blocked)"
proof (induction evs arbitrary: c lg)
  case Nil
  show ?case by simp
next
  case (Cons ev evs)
  show ?case
  proof (cases ev)
    case CtxDone
    then show ?thesis by simp
  next
    case (Recv req)
    then show ?thesis
      by (cases "processor c req") (auto simp: Cons.IH split: option.splits)
  qed
qed

lemma Start_loop_log_grows:
  "prefix lg (snd (snd (Start_loop processor c lg evs)))"
proof (induction evs arbitrary: c lg)
  case Nil
  show ?case by simp
next
  case (Cons ev evs)
  show ?case
  proof (cases ev)
    case CtxDone
    then show ?thesis by simp
  next
    case (Recv req)
    obtain r c' where p: "processor c req = (r, c')" by (cases "processor c req")
    show ?thesis
    proof (cases r)
      case None
      with p Recv Cons.IH [where c = c' and lg = "lg @ [LogProcessing req]"] show ?thesis
        by (auto dest: append_prefixD)
    next
      case (Some err)
      with p Recv Cons.IH [where c = c' and lg = "lg @ [LogProcessing req, LogErrorProcessing req err]"]
      show ?thesis by (auto dest: append_prefixD)
    qed
  qed
qed

lemma Start_loop_state:
  "fst (snd (Start_loop processor c lg evs))
     = foldl (\<lambda>s req. snd (processor s req)) c (received evs)"
proof (induction evs arbitrary: c lg)
  case Nil
  show ?case by simp
next
  case (Cons ev evs)
  show ?case
  proof (cases ev)
    case CtxDone
    then show ?thesis by simp
  next
    case (Recv req)
    obtain r c' where p: "processor c req = (r, c')" by (cases "processor c req")
    show ?thesis
    proof (cases r)
      case None
      with p Recv Cons.IH [where c = c' and lg = "lg @ [LogProcessing req]"]
      show ?thesis by simp
    next
      case (Some err)
      with p Recv Cons.IH [where c = c' and lg = "lg @ [LogProcessing req, LogErrorProcessing req err]"]
      show ?thesis by simp
    qed
  qed
qed

text \<open>
  Claim C5. When the processor returns an error for a request, \<open>Start\<close> logs the error and
  goes on with the next thing it receives; nothing is ever taken out of the log. So whatever
  the processor returns, \<open>Start\<close> takes up every request it receives before the
  cancellation and runs the processor on each, in the order received and on the state the
  request before left, whether that request failed or not: the state \<open>Start\<close> ends in is
  the processor folded over these requests. \<open>Start\<close> returns (with \<open>nil\<close>) exactly when
  the cancellation is received, and otherwise is still waiting. When the object was fetched and the pipeline fails on the
  delta, \<open>processRequest\<close> returns the wrapped error without a single call of
  \<open>target.Write\<close>.
\<close>

theorem Start_continues_after_processor_error:
  "(fst (processor c req) = Some err \<longrightarrow>
      Start_loop processor c lg (Recv req # evs)
        = Start_loop processor (snd (processor c req))
            (lg @ [LogProcessing req, LogErrorProcessing req err]) evs)
   \<and> fst (snd (Start_loop processor c lg evs))
       = foldl (\<lambda>s r. snd (processor s r)) c (received evs)
   \<and> prefix lg (snd (snd (Start_loop processor c lg evs)))
   \<and> taken_up (snd (snd (Start_loop processor c lg evs))) = taken_up lg @ received evs
   \<and> (fst (Start_loop processor c lg evs) = Returned None \<longleftrightarrow> CtxDone \<in> set evs)
   \<and> (fst (Start_loop processor c lg evs) = Blocked \<longleftrightarrow> CtxDone \<notin> set evs)
   \<and> (fetchObject env k req = (None, obj)
        \<and> pipelineEvaluate env (engine k) \<lparr>Type = EventType req, Object = obj\<rparr> = (Inl x, eng)
      \<longrightarrow> processRequest env k req
            = (Some (Errorf ''controller: error evaluating pipeline for object'' x),
               k\<lparr>engine := eng\<rparr>)
          \<and> writes (snd (processRequest env k req)) = writes k
          \<and> cluster (snd (processRequest env k req)) = cluster k)"
proof -
  have 1: "fst (processor c req) = Some err \<longrightarrow>
      Start_loop processor c lg (Recv req # evs)
        = Start_loop processor (snd (processor c req))
            (lg @ [LogProcessing req, LogErrorProcessing req err]) evs"
    by (cases "processor c req") simp
  have 5: "fetchObject env k req = (None, obj)
        \<and> pipelineEvaluate env (engine k) \<lparr>Type = EventType req, Object = obj\<rparr> = (Inl x, eng)
      \<longrightarrow> processRequest env k req
            = (Some (Errorf ''controller: error evaluating pipeline for object'' x),
               k\<lparr>engine := eng\<rparr>)
          \<and> writes (snd (processRequest env k req)) = writes k
          \<and> cluster (snd (processRequest env k req)) = cluster k"
    by (simp add: processRequest_def)
  from 1 5 Start_loop_taken_up [of processor c lg evs] Start_loop_result [of processor c lg evs]
    Start_loop_log_grows [of lg processor c evs] Start_loop_state [of processor c lg evs]
  show ?thesis by simp
qed


theorem Start_continues_after_processor_error_witness:
  "fetchObject sample_env sample_controller (sample_request ''bad'')
     = (None, sample_object ''bad'')
   \<and> pipelineEvaluate sample_env (engine sample_controller)
        \<lparr>Type = EventType (sample_request ''bad''), Object = sample_object ''bad''\<rparr>
     = (Inl ''no such field'', ())
   \<and> fst (processRequest sample_env sample_controller (sample_request ''bad''))
     = Some (Errorf ''controller: error evaluating pipeline for object'' ''no such field'')
   \<and> writes (snd (processRequest sample_env sample_controller (sample_request ''bad''))) = []
   \<and> taken_up (snd (snd (Start (processRequest sample_env) sample_controller sample_events)))
     = [sample_request ''bad'', sample_request ''web'']
   \<and> fst (Start (processRequest sample_env) sample_controller sample_events) = Returned None
   \<and> fst (snd (Start (processRequest sample_env) sample_controller sample_events))
       = sample_controller
           \<lparr>writes := [(\<lparr>Type = Deleted, Object = sample_object ''web''\<rparr>, Some ''conflict'')]\<rparr>"
proof -
  have f: "fetchObject sample_env sample_controller (sample_request ''bad'')
             = (None, sample_object ''bad'')"
    by (simp add: fetchObject_def sample_env_def sample_request_def sample_object_def)
  have e: "pipelineEvaluate sample_env (engine sample_controller)
        \<lparr>Type = EventType (sample_request ''bad''), Object = sample_object ''bad''\<rparr>
       = (Inl ''no such field'', ())"
    by (simp add: sample_env_def sample_request_def sample_object_def requestObject_def)
  note whole = Start_continues_after_processor_error
      [of "processRequest sample_env" sample_controller "sample_request ''bad''"
          "Errorf ''controller: error evaluating pipeline for object'' ''no such field''"
          "[LogStarting]" "sample_events" sample_env sample_controller "sample_object ''bad''"
          "''no such field''" "()"]
  from whole f e have p: "processRequest sample_env sample_controller (sample_request ''bad'')
            = (Some (Errorf ''controller: error evaluating pipeline for object'' ''no such field''),
               sample_controller\<lparr>engine := ()\<rparr>)"
    by blast
  from whole have t: "taken_up (snd (snd (Start (processRequest sample_env) sample_controller sample_events)))
     = [sample_request ''bad'', sample_request ''web'']"
    and r: "fst (Start (processRequest sample_env) sample_controller sample_events) = Returned None"
    by (simp_all add: Start_def sample_events_def)
  have "received sample_events = [sample_request ''bad'', sample_request ''web'']"
    by (simp add: sample_events_def)
  with whole have "fst (snd (Start (processRequest sample_env) sample_controller sample_events))
       = snd (processRequest sample_env
               (snd (processRequest sample_env sample_controller (sample_request ''bad'')))
               (sample_request ''web''))"
    by (simp add: Start_def)
  also have "\<dots> = sample_controller
           \<lparr>writes := [(\<lparr>Type = Deleted, Object = sample_object ''web''\<rparr>, Some ''conflict'')]\<rparr>"
    by (simp add: p)
       (simp add: sample_env_def sample_controller_def sample_request_def sample_object_def
          processRequest_def fetchObject_def requestObject_def ObjectKeyFromObject_def)
  finally have s: "fst (snd (Start (processRequest sample_env) sample_controller sample_events))
       = sample_controller
           \<lparr>writes := [(\<lparr>Type = Deleted, Object = sample_object ''web''\<rparr>, Some ''conflict'')]\<rparr>" .
  from f e p t r s show ?thesis by (simp add: sample_controller_def)
qed

section \<open>Properties of expressions\<close>

lemma parse_int:
  "- (2 ^ 63) \<le> n \<Longrightarrow> n < 2 ^ 63 \<Longrightarrow>
     UnmarshalJSON ext (JNumber (JInt n)) = Inr (int_lit (word_of_int n))"
  by (simp add: UnmarshalJSON.simps unmarshal_bool_def unmarshal_int64_def int_lit_def)

lemma parse_string:
  "UnmarshalJSON ext (JString s) =
     (if s = [] then Inl (UnmarshalError ''expression'' (JString s)) else Inr (string_lit s))"
  by (simp add: UnmarshalJSON.simps unmarshal_bool_def unmarshal_int64_def unmarshal_float64_def
      unmarshal_string_def string_lit_def)

lemma parse_array:
  "collect (map (UnmarshalJSON ext) els) = Inr mv \<Longrightarrow>
     UnmarshalJSON ext (JArray els) = Inr (list_lit mv)"
  by (subst UnmarshalJSON.simps)
     (simp add: unmarshal_bool_def unmarshal_int64_def unmarshal_float64_def
        unmarshal_string_def list_lit_def)

lemma parse_op:
  "UnmarshalJSON ext j = Inr x \<Longrightarrow> op \<noteq> [] \<Longrightarrow> hd op = CHR ''@'' \<Longrightarrow>
     UnmarshalJSON ext (JObject [(op, j)]) = Inr (op_expr op x)"
  by (subst UnmarshalJSON.simps)
     (simp add: unmarshal_bool_def unmarshal_int64_def unmarshal_float64_def
        unmarshal_string_def op_expr_def make_map_def)

lemma parse_filter: "UnmarshalJSON ext filter_doc = Inr filter_expr"
  by (simp add: filter_doc_def filter_expr_def parse_op parse_array parse_string parse_int)

lemma eval_int: "Evaluate ext ctx (int_lit n) = Inr (VInt n)"
  by (simp add: int_lit_def Evaluate.simps stacked_def coerceLiteral_def asInt_def)

lemma eval_string:
  "Evaluate ext ctx (string_lit s) = GetJSONPath ext ctx s"
  by (simp add: string_lit_def Evaluate.simps stacked_def coerceLiteral_def asString_def)

lemma eval_list_lit:
  "Evaluate ext ctx (list_lit es) =
     (case collect (map (Evaluate ext ctx) es) of
        Inl err \<Rightarrow> Inl err
      | Inr ret \<Rightarrow> Inr (VList (unpackList (VList ret))))"
  by (simp add: list_lit_def Evaluate.simps)

lemma eval_list_arg:
  "Evaluate ext ctx (op_expr ''@list'' a) =
     (case Evaluate ext ctx a of
        Inl err \<Rightarrow> Inl err
      | Inr v \<Rightarrow>
          (case v of
             VList vs \<Rightarrow> Inr (VList (unpackList (VList vs)))
           | _ \<Rightarrow> Inl (ExpressionError (op_expr ''@list'' a) (Err ''argument must be a list''))))"
  by (simp add: op_expr_def Evaluate.simps Let_def split: sum.splits val.splits)

lemma eval_gt:
  "Evaluate ext ctx (op_expr ''@gt'' a) =
     (case Evaluate ext ctx a of
        Inl err \<Rightarrow> Inl err
      | Inr v \<Rightarrow> applyOp ext (op_expr ''@gt'' a) v)"
  by (simp add: op_expr_def Evaluate.simps split: sum.splits)

lemma gt_ints:
  "applyOp ext (op_expr ''@gt'' a) (VList [VInt x, VInt y]) = Inr (VBool (sint x > sint y))"
  by (simp add: applyOp_def op_expr_def asBinaryIntOrFloatList_def asIntOrFloatList_def asInt_def)

lemma eval_filter:
  "Evaluate ext ctx (op_expr ''@filter'' (list_lit [cond, lst])) =
     (case replaceError ''failed to evaluate arguments'' (Evaluate ext ctx lst) of
        Inl err \<Rightarrow> Inl err
      | Inr rawArg \<Rightarrow>
          (case asList rawArg of
             Inl err \<Rightarrow> Inl (Err ''invalid arguments: expected a list'')
           | Inr list \<Rightarrow>
               (case filterLoop (op_expr ''@filter'' (list_lit [cond, lst]))
                       (map (\<lambda>input. (input, Evaluate ext (ctx\<lparr>subject := input\<rparr>) cond)) list) of
                  Inl err \<Rightarrow> Inl err
                | Inr vs \<Rightarrow> Inr (VList vs))))"
  by (simp add: op_expr_def list_lit_def Evaluate.simps asExpOrList_def split: sum.splits)

text \<open>
  Claim C6. The expression \<open>@filter: [{@gt: [$, 3]}, {@list: [1, 2, 3, 4, 5]}]\<close>, as it is
  parsed from its document, evaluates to the list \<open>[4, 5]\<close> in every context, in the order
  of the list and without an error.
\<close>

theorem filter_gt_3:
  "UnmarshalJSON ext filter_doc = Inr filter_expr
   \<and> Evaluate ext ctx filter_expr = Inr (VList [VInt 4, VInt 5])"
proof -
  have cond: "Evaluate ext (ctx\<lparr>subject := VInt n\<rparr>) (op_expr ''@gt'' (list_lit [string_lit ''$'', int_lit 3]))
     = Inr (VBool (sint n > 3))" for n
    by (simp add: eval_gt eval_list_lit eval_string eval_int GetJSONPath_def unpackList_def gt_ints)
  have lst: "Evaluate ext ctx (op_expr ''@list'' (list_lit [int_lit 1, int_lit 2, int_lit 3, int_lit 4, int_lit 5]))
     = Inr (VList [VInt 1, VInt 2, VInt 3, VInt 4, VInt 5])"
    by (simp add: eval_list_arg eval_list_lit eval_int unpackList_def)
  have "Evaluate ext ctx filter_expr = Inr (VList [VInt 4, VInt 5])"
    unfolding filter_expr_def
    by (simp add: eval_filter lst cond replaceError_def asList_def asBool_def)
  with parse_filter show ?thesis by simp
qed

lemma parse_null: "UnmarshalJSON ext JNull = Inr (bool_lit False)"
  by (simp add: UnmarshalJSON.simps unmarshal_bool_def bool_lit_def)

lemma parse_bool: "UnmarshalJSON ext (JBool b) = Inr (bool_lit b)"
  by (simp add: UnmarshalJSON.simps unmarshal_bool_def bool_lit_def)

lemma eval_bool: "Evaluate ext ctx (bool_lit b) = Inr (VBool b)"
  by (simp add: bool_lit_def Evaluate.simps stacked_def coerceLiteral_def asBool_def)

lemma marshal_int: "MarshalJSON ext (int_lit n) = Inr (JNumber (JInt (sint n)))"
  by (simp add: int_lit_def MarshalJSON.simps coerceLiteral_def asInt_def)

lemma marshal_list_arg: "MarshalJSON ext (op_expr ''@list'' a) = MarshalJSON ext a"
  by (simp add: op_expr_def MarshalJSON.simps)

lemma marshal_any: "MarshalJSON ext (op_expr ''@any'' a) = Inr JNull"
  by (simp add: op_expr_def MarshalJSON.simps)

lemma eval_any:
  "Evaluate ext ctx (op_expr ''@any'' (list_lit [cond, lst])) =
     (case replaceError ''failed to evaluate arguments'' (Evaluate ext ctx lst) of
        Inl err \<Rightarrow> Inl err
      | Inr rawArg \<Rightarrow>
          (case asList rawArg of
             Inl err \<Rightarrow> Inl (Err ''invalid arguments: expected a list'')
           | Inr list \<Rightarrow>
               (case untilLoop True False (op_expr ''@any'' (list_lit [cond, lst]))
                       (map (\<lambda>input. (input, Evaluate ext (ctx\<lparr>subject := input\<rparr>) cond)) list) of
                  Inl err \<Rightarrow> Inl err
                | Inr v \<Rightarrow> Inr (VBool v))))"
  by (simp add: op_expr_def list_lit_def Evaluate.simps asExpOrList_def split: sum.splits)

lemma eval_isnil:
  "Evaluate ext ctx (op_expr ''@isnil'' a) =
     (case Evaluate ext ctx a of Inl err \<Rightarrow> Inl err | Inr v \<Rightarrow> Inr (VBool (v = VNil)))"
  by (simp add: op_expr_def Evaluate.simps applyOp_def split: sum.splits)

lemma marshal_op:
  "MarshalJSON ext a = Inr j \<Longrightarrow> MarshalJSON ext (op_expr ''@isnil'' a) = Inr (JObject [(''@isnil'', j)])"
  by (simp add: op_expr_def MarshalJSON.simps keyed_def)

lemma marshal_list_lit:
  "MarshalJSON ext (list_lit es) =
     (case collect (map (MarshalJSON ext) es) of Inl err \<Rightarrow> Inl err | Inr js \<Rightarrow> Inr (JArray js))"
  by (simp add: list_lit_def MarshalJSON.simps)

lemma roundtrip_list_isnil:
  "UnmarshalJSON ext list_isnil_doc = Inr (op_expr ''@list'' (op_expr ''@isnil'' (list_lit [])))
   \<and> MarshalJSON ext (op_expr ''@list'' (op_expr ''@isnil'' (list_lit []))) = Inr isnil_doc
   \<and> UnmarshalJSON ext isnil_doc = Inr (op_expr ''@isnil'' (list_lit []))
   \<and> Evaluate ext ctx (op_expr ''@list'' (op_expr ''@isnil'' (list_lit [])))
       = Inl (ExpressionError (op_expr ''@list'' (op_expr ''@isnil'' (list_lit [])))
               (Err ''argument must be a list''))
   \<and> Evaluate ext ctx (op_expr ''@isnil'' (list_lit [])) = Inr (VBool False)"
proof -
  have p: "UnmarshalJSON ext isnil_doc = Inr (op_expr ''@isnil'' (list_lit []))"
    by (simp add: isnil_doc_def parse_op parse_array)
  then have q: "UnmarshalJSON ext list_isnil_doc
                  = Inr (op_expr ''@list'' (op_expr ''@isnil'' (list_lit [])))"
    by (simp add: list_isnil_doc_def parse_op)
  have m: "MarshalJSON ext (op_expr ''@list'' (op_expr ''@isnil'' (list_lit []))) = Inr isnil_doc"
    by (simp add: marshal_list_arg marshal_op marshal_list_lit isnil_doc_def)
  have e: "Evaluate ext ctx (op_expr ''@isnil'' (list_lit [])) = Inr (VBool False)"
    by (simp add: eval_isnil eval_list_lit unpackList_def)
  then have f: "Evaluate ext ctx (op_expr ''@list'' (op_expr ''@isnil'' (list_lit [])))
       = Inl (ExpressionError (op_expr ''@list'' (op_expr ''@isnil'' (list_lit [])))
               (Err ''argument must be a list''))"
    by (simp add: eval_list_arg)
  from p q m e f show ?thesis by simp
qed

text \<open>
  Claim C3 says that an expression parsed from a document, written out again and parsed
  again has the same value in every context. \<open>MarshalJSON\<close> keeps the operator of
  \<open>@bool\<close>, \<open>@int\<close>, \<open>@float\<close> and \<open>@string\<close> with an argument ``for a correct
  round-trip'', yet writes only the argument of \<open>@list\<close> and \<open>@dict\<close> and the (empty)
  literal of \<open>@any\<close>. So \<open>{"@list": 5}\<close> is written as \<open>5\<close>: the expression parsed is an
  error to evaluate, the expression parsed from what was written is the number 5. And
  \<open>{"@any": [true, [1]]}\<close> is written as \<open>null\<close>: the expression parsed is true, the
  expression parsed from what was written is false. The third example uses none of
  the coercions: \<open>{"@list": {"@isnil": []}}\<close> is an error to evaluate and is written as
  \<open>{"@isnil": []}\<close>, which is false.
\<close>

theorem roundtrip_changes_meaning:
  "UnmarshalJSON ext list5_doc = Inr (op_expr ''@list'' (int_lit 5))
   \<and> MarshalJSON ext (op_expr ''@list'' (int_lit 5)) = Inr (JNumber (JInt 5))
   \<and> UnmarshalJSON ext (JNumber (JInt 5)) = Inr (int_lit 5)
   \<and> Evaluate ext ctx (op_expr ''@list'' (int_lit 5))
       = Inl (ExpressionError (op_expr ''@list'' (int_lit 5)) (Err ''argument must be a list''))
   \<and> Evaluate ext ctx (int_lit 5) = Inr (VInt 5)
   \<and> UnmarshalJSON ext any_doc
       = Inr (op_expr ''@any'' (list_lit [bool_lit True, list_lit [int_lit 1]]))
   \<and> MarshalJSON ext (op_expr ''@any'' (list_lit [bool_lit True, list_lit [int_lit 1]])) = Inr JNull
   \<and> UnmarshalJSON ext JNull = Inr (bool_lit False)
   \<and> Evaluate ext ctx (op_expr ''@any'' (list_lit [bool_lit True, list_lit [int_lit 1]]))
       = Inr (VBool True)
   \<and> Evaluate ext ctx (bool_lit False) = Inr (VBool False)
   \<and> UnmarshalJSON ext list_isnil_doc
       = Inr (op_expr ''@list'' (op_expr ''@isnil'' (list_lit [])))
   \<and> MarshalJSON ext (op_expr ''@list'' (op_expr ''@isnil'' (list_lit []))) = Inr isnil_doc
   \<and> UnmarshalJSON ext isnil_doc = Inr (op_expr ''@isnil'' (list_lit []))
   \<and> Evaluate ext ctx (op_expr ''@list'' (op_expr ''@isnil'' (list_lit [])))
       = Inl (ExpressionError (op_expr ''@list'' (op_expr ''@isnil'' (list_lit [])))
               (Err ''argument must be a list''))
   \<and> Evaluate ext ctx (op_expr ''@isnil'' (list_lit [])) = Inr (VBool False)"
proof -
  have p5: "UnmarshalJSON ext (JNumber (JInt 5)) = Inr (int_lit 5)"
    using parse_int [of 5 ext] by simp
  have p1: "UnmarshalJSON ext (JNumber (JInt 1)) = Inr (int_lit 1)"
    using parse_int [of 1 ext] by simp
  have a: "UnmarshalJSON ext list5_doc = Inr (op_expr ''@list'' (int_lit 5))"
    by (simp add: list5_doc_def parse_op p5)
  have b: "MarshalJSON ext (op_expr ''@list'' (int_lit 5)) = Inr (JNumber (JInt 5))"
    by (simp add: marshal_list_arg marshal_int)
  have c: "Evaluate ext ctx (op_expr ''@list'' (int_lit 5))
       = Inl (ExpressionError (op_expr ''@list'' (int_lit 5)) (Err ''argument must be a list''))"
    by (simp add: eval_list_arg eval_int)
  have d: "UnmarshalJSON ext any_doc
       = Inr (op_expr ''@any'' (list_lit [bool_lit True, list_lit [int_lit 1]]))"
    by (simp add: any_doc_def parse_op parse_array parse_bool p1)
  have e: "Evaluate ext ctx (op_expr ''@any'' (list_lit [bool_lit True, list_lit [int_lit 1]]))
       = Inr (VBool True)"
    by (simp add: eval_any eval_list_lit eval_int eval_bool unpackList_def replaceError_def
        asList_def asBool_def)
  from a b p5 c d e roundtrip_list_isnil [of ext ctx] show ?thesis
    by (simp add: eval_int eval_bool marshal_any parse_null)
qed

lemma unpackList_cases:
  "unpackList (VList L) = (case L of VList inner # rest \<Rightarrow> inner | _ \<Rightarrow> L)"
  by (cases L) (simp_all add: unpackList_def split: val.splits)

text \<open>
  Claim C4 says that a list of lists with two or more outer elements is returned with all
  its elements. The elements of \<open>[[1, 2], [3]]\<close> evaluate to the two lists \<open>[1, 2]\<close> and
  \<open>[3]\<close>, and \<open>@list\<close> returns \<open>[1, 2]\<close>.
\<close>

theorem list_keeps_every_row_counterexample:
  "collect (map (Evaluate no_externals empty_ctx) two_rows)
     = Inr [VList [VInt 1, VInt 2], VList [VInt 3]]
   \<and> Evaluate no_externals empty_ctx (list_lit two_rows) = Inr (VList [VInt 1, VInt 2])"
  by (simp add: two_rows_def eval_list_lit eval_int unpackList_def)

text \<open>
  Claim C4, amended. When \<open>@list\<close> has evaluated its elements, or its argument, to the
  list \<open>L\<close>, it returns the first element of \<open>L\<close> if \<open>L\<close> is not empty and that element
  is a list, whatever the number and the kind of the elements after it, which are dropped;
  in every other case it returns \<open>L\<close> with all its elements. In particular a list of
  lists with exactly one outer element gives that inner list, and a list none of whose
  elements is a list is returned as it is.
\<close>

theorem list_unpacks_first_element:
  "(collect (map (Evaluate ext ctx) es) = Inr L \<longrightarrow>
      Evaluate ext ctx (list_lit es)
        = Inr (VList (case L of VList inner # rest \<Rightarrow> inner | _ \<Rightarrow> L)))
   \<and> (Evaluate ext ctx a = Inr (VList L) \<longrightarrow>
      Evaluate ext ctx (op_expr ''@list'' a)
        = Inr (VList (case L of VList inner # rest \<Rightarrow> inner | _ \<Rightarrow> L)))
   \<and> unpackList (VList [VList inner]) = inner
   \<and> ((\<forall>x \<in> set L. \<forall>vs. x \<noteq> VList vs) \<longrightarrow> unpackList (VList L) = L)"
proof -
  have 1: "unpackList (VList [VList inner]) = inner" by (simp add: unpackList_def)
  have 2: "unpackList (VList L) = L" if "\<forall>x \<in> set L. \<forall>vs. x \<noteq> VList vs"
    using that by (cases L) (auto simp: unpackList_def split: val.splits)
  from 1 2 show ?thesis
    by (simp add: eval_list_lit eval_list_arg unpackList_cases)
qed

theorem list_unpacks_first_element_witness:
  "collect (map (Evaluate no_externals empty_ctx) two_rows)
     = Inr [VList [VInt 1, VInt 2], VList [VInt 3]]
   \<and> Evaluate no_externals empty_ctx (list_lit two_rows) = Inr (VList [VInt 1, VInt 2])
   \<and> Evaluate no_externals empty_ctx (list_lit [int_lit 1, int_lit 2]) = Inr (VList [VInt 1, VInt 2])
   \<and> Evaluate no_externals empty_ctx (op_expr ''@list'' (list_lit [int_lit 1, int_lit 2]))
       = Inr (VList [VInt 1, VInt 2])"
proof -
  have rows: "collect (map (Evaluate no_externals empty_ctx) two_rows)
     = Inr [VList [VInt 1, VInt 2], VList [VInt 3]]"
    by (simp add: two_rows_def eval_list_lit eval_int unpackList_def)
  have ints: "collect (map (Evaluate no_externals empty_ctx) [int_lit 1, int_lit 2])
     = Inr [VInt 1, VInt 2]"
    by (simp add: eval_int)
  from list_unpacks_first_element
         [of no_externals empty_ctx two_rows "[VList [VInt 1, VInt 2], VList [VInt 3]]"] rows
  have a: "Evaluate no_externals empty_ctx (list_lit two_rows) = Inr (VList [VInt 1, VInt 2])"
    by simp
  from list_unpacks_first_element
         [of no_externals empty_ctx "[int_lit 1, int_lit 2]" "[VInt 1, VInt 2]"] ints
  have b: "Evaluate no_externals empty_ctx (list_lit [int_lit 1, int_lit 2])
             = Inr (VList [VInt 1, VInt 2])"
    by simp
  from list_unpacks_first_element
         [of no_externals empty_ctx "[]" "[VInt 1, VInt 2]" "list_lit [int_lit 1, int_lit 2]"] b
  have c: "Evaluate no_externals empty_ctx (op_expr ''@list'' (list_lit [int_lit 1, int_lit 2]))
       = Inr (VList [VInt 1, VInt 2])"
    by simp
  from rows a b c show ?thesis by simp
qed

lemma parse_string_terminal:
  "UnmarshalJSON ext j = Inr (Expression ''@string'' None l)
     \<longleftrightarrow> (\<exists>s. s \<noteq> [] \<and> j = JString s \<and> l = LVal (VString s))"
proof (cases j)
  case JNull
  then show ?thesis by (simp add: parse_null bool_lit_def)
next
  case (JBool b)
  then show ?thesis by (simp add: parse_bool bool_lit_def)
next
  case (JNumber n)
  then show ?thesis
    by (subst UnmarshalJSON.simps)
       (simp add: unmarshal_bool_def unmarshal_int64_def unmarshal_float64_def
          unmarshal_string_def split: option.splits jnumber.splits)
next
  case (JString s)
  then show ?thesis by (auto simp: parse_string string_lit_def)
next
  case (JArray els)
  then show ?thesis
    by (subst UnmarshalJSON.simps)
       (simp add: unmarshal_bool_def unmarshal_int64_def unmarshal_float64_def
          unmarshal_string_def split: sum.splits error.splits)
next
  case (JObject kvs)
  then show ?thesis
    by (subst UnmarshalJSON.simps)
       (simp add: unmarshal_bool_def unmarshal_int64_def unmarshal_float64_def
          unmarshal_string_def Let_def split: sum.splits error.splits)
qed

text \<open>
  Claim C10. The document \<open>""\<close> is an unmarshal error: as a boolean, an integer and a
  float it is a type error, as a string it is read but is empty, and it is neither an array
  nor an object. A document is parsed to a \<open>@string\<close> terminal exactly when it is a
  non-empty string, and then to the terminal of that string.
\<close>

theorem empty_string_is_not_an_expression:
  "UnmarshalJSON ext (JString []) = Inl (UnmarshalError ''expression'' (JString []))
   \<and> unmarshal_bool (JString []) = None
   \<and> unmarshal_int64 (JString []) = None
   \<and> unmarshal_float64 ext (JString []) = None
   \<and> unmarshal_string (JString []) = Some []
   \<and> (UnmarshalJSON ext j = Inr (Expression ''@string'' None l)
        \<longleftrightarrow> (\<exists>s. s \<noteq> [] \<and> j = JString s \<and> l = LVal (VString s)))"
  using parse_string_terminal [of ext j l]
  by (simp add: parse_string unmarshal_bool_def unmarshal_int64_def unmarshal_float64_def
      unmarshal_string_def)

end
